theory Spec2Isabelle
  imports Complex_Main "HOL-Library.Multiset"
begin

section \<open>Strings as Python and SQLite treat them\<close>

text \<open>
  Names and identifiers are Python \<open>str\<close> values. They are modelled as \<open>string\<close>
  (lists of 8-bit characters); the cased characters of the model are the ASCII letters:
  a character outside ASCII, which Python may case (an accented letter), is uncased here.
\<close>

datatype error = ValueError | TypeError | IndexError | KeyError | AttributeError
  | OperationalError

definition ascii_lowercase :: string where
  "ascii_lowercase = ''abcdefghijklmnopqrstuvwxyz''"

definition ascii_uppercase :: string where
  "ascii_uppercase = ''ABCDEFGHIJKLMNOPQRSTUVWXYZ''"

definition is_lower :: "char \<Rightarrow> bool" where
  "is_lower c = (c \<in> set ascii_lowercase)"

definition is_upper :: "char \<Rightarrow> bool" where
  "is_upper c = (c \<in> set ascii_uppercase)"

definition upper_char :: "char \<Rightarrow> char" where
  "upper_char c =
     (case map_of (zip ascii_lowercase ascii_uppercase) c of Some u \<Rightarrow> u | None \<Rightarrow> c)"

definition lower_char :: "char \<Rightarrow> char" where
  "lower_char c =
     (case map_of (zip ascii_uppercase ascii_lowercase) c of Some l \<Rightarrow> l | None \<Rightarrow> c)"

text \<open>\<open>s.startswith(p)\<close>.\<close>

definition startswith :: "string \<Rightarrow> string \<Rightarrow> bool" where
  "startswith s p = (take (length p) s = p)"

text \<open>\<open>old in s\<close>: the substring test.\<close>

fun contains :: "string \<Rightarrow> string \<Rightarrow> bool" where
  "contains old [] = (old = [])"
| "contains old (c # cs) = (startswith (c # cs) old \<or> contains old cs)"

text \<open>
  \<open>s.replace(old, new)\<close>: the occurrences of \<open>old\<close> are found from left to right and
  do not overlap. With an empty \<open>old\<close>, Python inserts \<open>new\<close> before every character and
  at the end.
\<close>

fun replace_from :: "string \<Rightarrow> string \<Rightarrow> string \<Rightarrow> string" where
  "replace_from old new [] = []"
| "replace_from old new (c # cs) =
     (if old \<noteq> [] \<and> startswith (c # cs) old
      then new @ replace_from old new (drop (length old) (c # cs))
      else c # replace_from old new cs)"

definition replace :: "string \<Rightarrow> string \<Rightarrow> string \<Rightarrow> string" where
  "replace s old new =
     (if old = [] then concat (map (\<lambda>c. new @ [c]) s) @ new else replace_from old new s)"

text \<open>\<open>s.split(sep)\<close> for a separator of one character: never an empty list.\<close>

fun split_char :: "char \<Rightarrow> string \<Rightarrow> string list" where
  "split_char sep [] = [[]]"
| "split_char sep (c # cs) =
     (if c = sep then [] # split_char sep cs
      else (case split_char sep cs of [] \<Rightarrow> [[c]] | p # ps \<Rightarrow> (c # p) # ps))"

text \<open>
  \<open>s.title()\<close>: a cased character is put in upper case when the character before it
  is not cased, and in lower case otherwise.
\<close>

fun title_from :: "bool \<Rightarrow> string \<Rightarrow> string" where
  "title_from previous_is_cased [] = []"
| "title_from previous_is_cased (c # cs) =
     (if previous_is_cased then lower_char c else upper_char c)
       # title_from (is_lower c \<or> is_upper c) cs"

definition title :: "string \<Rightarrow> string" where
  "title s = title_from False s"

text \<open>
  SQLite's \<open>LIKE\<close>: \<open>%\<close> matches any run of characters, \<open>_\<close> exactly one, and any other
  character matches itself without regard to the case of ASCII letters.
\<close>

fun sql_like :: "string \<Rightarrow> string \<Rightarrow> bool" where
  "sql_like [] s = (s = [])"
| "sql_like (p # ps) s =
     (if p = CHR ''%'' then
        (sql_like ps s \<or> (case s of [] \<Rightarrow> False | c # cs \<Rightarrow> sql_like (p # ps) cs))
      else (case s of [] \<Rightarrow> False
            | c # cs \<Rightarrow> (p = CHR ''_'' \<or> upper_char p = upper_char c) \<and> sql_like ps cs))"

section \<open>The importer\<close>

text \<open>
  A record of a feed is a Python \<open>dict\<close> from column names to values: an association
  list in insertion order. The values of a row read by \<open>csv.DictReader\<close> are strings
  (\<open>None\<close> where the row is short); the importer stores floats and integers in some
  columns before the record reaches \<open>import_table\<close>.
\<close>

text \<open>
  A Python float is a real number, one of the two infinities, or NaN. An order comparison
  that involves NaN is false, whatever the other side.
\<close>

datatype pyfloat = Finite real | PosInf | NegInf | NaN

fun float_less :: "pyfloat \<Rightarrow> pyfloat \<Rightarrow> bool" where
  "float_less NaN y = False"
| "float_less x NaN = False"
| "float_less (Finite x) (Finite y) = (x < y)"
| "float_less (Finite x) PosInf = True"
| "float_less NegInf (Finite y) = True"
| "float_less NegInf PosInf = True"
| "float_less x y = False"

datatype py_value = PyStr string | PyFloat pyfloat | PyInt int | PyNone

type_synonym py_dict = "(string \<times> py_value) list"

definition getitem :: "py_dict \<Rightarrow> string \<Rightarrow> error + py_value" where
  "getitem d key = (case map_of d key of None \<Rightarrow> Inl KeyError | Some v \<Rightarrow> Inr v)"



definition radians :: "real \<Rightarrow> real" where
  "radians x = x * pi / 180"

text \<open>\<open>math.radians\<close> on a float that may be an infinity or NaN.\<close>

fun float_radians :: "pyfloat \<Rightarrow> pyfloat" where
  "float_radians (Finite x) = Finite (radians x)"
| "float_radians x = x"






definition FIELD_IDS :: "string list" where
  "FIELD_IDS = [''trip_id'', ''stop_id'', ''route_id'', ''service_id'', ''cycle_id'']"

definition FIELD_DROPS :: "string list" where
  "FIELD_DROPS =
     [''agency_id'', ''stop_url'', ''stop_timezone'', ''stop_desc'', ''zone_id'',
      ''route_desc'', ''route_color'', ''route_text_color'', ''route_url'',
      ''route_sort_order'', ''stop_headsign'', ''shape_dist_traveled'', ''timepoint'',
      ''trip_short_name'', ''trip_headsign'', ''block_id'', ''shape_id'', ''arrival_time'',
      ''departure_time'', ''pickup_type'', ''drop_off_type'', ''monday'', ''tuesday'',
      ''wednesday'', ''thursday'', ''friday'', ''saturday'', ''sunday'', ''stop_code'',
      ''location_type'', ''parent_station'', ''bikes_allowed'', ''trip_bikes_allowed'',
      ''platform_code'', ''stop_times.route_short_name'', ''trips.route_short_name'',
      ''ticketing_trip_id'', ''ticketing_type'']"

text \<open>
  \<open>load_corrections\<close>: the lines of the corrections file that hold a tabulation, each
  split at its tabulations. The file itself is not part of the sources, so the list
  \<open>CORRECTIONS\<close> is a parameter of \<open>normalize_name\<close>.
\<close>

definition load_corrections :: "string list \<Rightarrow> string list list" where
  "load_corrections lines =
     map (split_char (CHR 0x09)) (filter (\<lambda>line. CHR 0x09 \<in> set line) lines)"

text \<open>
  \<open>normalize_name\<close>: title case, then the corrections in the order of the list, each on
  the result of the one before. The loop header \<open>for [bad, good] in CORRECTIONS\<close> raises
  \<open>ValueError\<close> at an entry that has not exactly two parts.
\<close>

fun apply_corrections :: "string list list \<Rightarrow> string \<Rightarrow> error + string" where
  "apply_corrections [] name = Inr name"
| "apply_corrections (correction # corrections) name =
     (case correction of
        [bad, good] \<Rightarrow> apply_corrections corrections (replace name bad good)
      | _ \<Rightarrow> Inl ValueError)"

definition normalize_name :: "string list list \<Rightarrow> string \<Rightarrow> error + string" where
  "normalize_name CORRECTIONS name = apply_corrections CORRECTIONS (title name)"


text \<open>
  \<open>import_table\<close>: the dictionary built for one record, key by key in the order of the
  record. A dropped column is left out, the value of an identifier column gets the feed's
  \<open>base_id\<close> in front (string concatenation, which raises \<open>TypeError\<close> on a value that
  is no string), any other value is kept.
\<close>

definition prefix_id :: "string \<Rightarrow> py_value \<Rightarrow> error + py_value" where
  "prefix_id base_id v = (case v of PyStr s \<Rightarrow> Inr (PyStr (base_id @ s)) | _ \<Rightarrow> Inl TypeError)"

fun import_values :: "string \<Rightarrow> string \<Rightarrow> py_dict \<Rightarrow> error + py_dict" where
  "import_values table_name base_id [] = Inr []"
| "import_values table_name base_id ((key, v) # record) =
     (if key \<notin> set FIELD_DROPS \<and> table_name @ ''.'' @ key \<notin> set FIELD_DROPS then
        (case (if key \<in> set FIELD_IDS then prefix_id base_id v else Inr v) of
           Inl e \<Rightarrow> Inl e
         | Inr v' \<Rightarrow>
             (case import_values table_name base_id record of
                Inl e \<Rightarrow> Inl e
              | Inr values \<Rightarrow> Inr ((key, v') # values)))
      else import_values table_name base_id record)"

text \<open>
  The rows that \<open>import_table\<close> inserts, in order; the first error stops the loop. For
  a record of which no column is kept, \<open>sql_insert\<close> builds a statement with empty
  column and value lists, a syntax error for SQLite (\<open>OperationalError\<close>). The
  constraints of the schema, which is not part of the sources, are not modelled.
\<close>

fun import_table :: "string \<Rightarrow> string \<Rightarrow> py_dict list \<Rightarrow> error + py_dict list" where
  "import_table table_name base_id [] = Inr []"
| "import_table table_name base_id (record # records) =
     (case import_values table_name base_id record of
        Inl e \<Rightarrow> Inl e
      | Inr values \<Rightarrow>
          if values = [] then Inl OperationalError
          else
            (case import_table table_name base_id records of
               Inl e \<Rightarrow> Inl e
             | Inr rows \<Rightarrow> Inr (values # rows)))"


text \<open>
  The cycling feed. \<open>derive_cycle_latitude\<close> parses the component of index 1 of the
  field without its first and last characters, \<open>derive_cycle_longitude\<close> the component
  of index 0. The docstring of both gives the format of the field as
  \<open>(latitude, longitude)\<close>; the column is named \<open>coordonneesxy\<close>, and the value stored
  as \<open>cycle_lat\<close> is the one that \<open>find_cycle_stops\<close> uses as a latitude.
\<close>

definition derive_cycle_latitude ::
  "(string \<Rightarrow> error + pyfloat) \<Rightarrow> string \<Rightarrow> error + pyfloat" where
  "derive_cycle_latitude str_float coordonneesxy =
     (case split_char (CHR '','') (butlast (tl coordonneesxy)) of
        _ # part # _ \<Rightarrow> str_float part
      | _ \<Rightarrow> Inl IndexError)"

definition derive_cycle_longitude ::
  "(string \<Rightarrow> error + pyfloat) \<Rightarrow> string \<Rightarrow> error + pyfloat" where
  "derive_cycle_longitude str_float coordonneesxy =
     (case split_char (CHR '','') (butlast (tl coordonneesxy)) of
        part # _ \<Rightarrow> str_float part
      | _ \<Rightarrow> Inl IndexError)"

definition derive_cycle_type :: "string \<Rightarrow> int" where
  "derive_cycle_type mobilier =
     (case map_of [(''ARCEAU'', 0), (''PARC'', 1), (''POTELET'', 2), (''RATELIER'', 3),
                   (''LOVELO'', 4)] mobilier of
        Some t \<Rightarrow> t | None \<Rightarrow> - 1)"

definition derive_cycle_free :: "string \<Rightarrow> int" where
  "derive_cycle_free acces = (if acces = ''LIBRE ACCES'' then 1 else 0)"

text \<open>One record of \<open>cycle_stops\<close> as \<open>import_cycle_data\<close> builds it from a row.\<close>

definition str_of :: "py_value \<Rightarrow> error + string" where
  "str_of v = (case v of PyStr s \<Rightarrow> Inr s | _ \<Rightarrow> Inl TypeError)"

definition cycle_stop_of_row ::
  "(string \<Rightarrow> error + pyfloat) \<Rightarrow> py_dict \<Rightarrow> error + py_dict" where
  "cycle_stop_of_row str_float row =
     (case getitem row ''id_local'' of Inl e \<Rightarrow> Inl e | Inr cycle_id \<Rightarrow>
      (case getitem row ''coordonneesxy'' of Inl e \<Rightarrow> Inl e | Inr xy_v \<Rightarrow>
       (case str_of xy_v of Inl e \<Rightarrow> Inl e | Inr xy \<Rightarrow>
        (case derive_cycle_latitude str_float xy of Inl e \<Rightarrow> Inl e | Inr lat \<Rightarrow>
         (case derive_cycle_longitude str_float xy of Inl e \<Rightarrow> Inl e | Inr lon \<Rightarrow>
          (case getitem row ''mobilier'' of Inl e \<Rightarrow> Inl e | Inr mobilier_v \<Rightarrow>
           (case getitem row ''acces'' of Inl e \<Rightarrow> Inl e | Inr acces_v \<Rightarrow>
            Inr [(''cycle_id'', cycle_id),
                 (''cycle_name'', PyNone),
                 (''cycle_lat'', PyFloat (float_radians lat)),
                 (''cycle_lon'', PyFloat (float_radians lon)),
                 (''cycle_type'',
                    PyInt (case mobilier_v of PyStr m \<Rightarrow> derive_cycle_type m | _ \<Rightarrow> - 1)),
                 (''cycle_free'',
                    PyInt (case acces_v of PyStr a \<Rightarrow> derive_cycle_free a | _ \<Rightarrow> 0))])))))))"

section \<open>The store\<close>

text \<open>
  The tables of the SQLite database, each a list of rows. A row carries the columns that
  the reconciliation statements of \<open>nearby-create-database.py\<close> read. The column
  \<open>route_id\<close> of \<open>trips\<close> is \<open>trip_route_id\<close> here, and likewise for the other
  tables, since a field name belongs to one record.
\<close>

record route =
  route_id :: string
  route_short_name :: string
  route_long_name :: string

record stop =
  stop_id :: string
  stop_name :: string

record stop_time =
  st_trip_id :: string
  st_stop_id :: string

record trip =
  trip_id :: string
  trip_route_id :: string
  trip_service_id :: string

record cache_stop_route =
  cache_stop_id :: string
  cache_route_id :: string
  cache_school :: int

record db =
  routes :: "route list"
  stops :: "stop list"
  stop_times :: "stop_time list"
  trips :: "trip list"
  cache_stop_routes :: "cache_stop_route list"

text \<open>
  \<open>DELETE FROM t WHERE col IN (?, ..., ?)\<close> with the identifiers bound to the
  placeholders: the rows whose column is one of the identifiers go. The statement is built
  with \<open>",".join(["?"] * len(ids))\<close>, so with no identifier it reads \<open>IN ()\<close>, which
  SQLite accepts and which holds of no row: membership in the empty list.
\<close>

definition delete_trips_by_trip_id :: "string list \<Rightarrow> db \<Rightarrow> db" where
  "delete_trips_by_trip_id ids d = d\<lparr>trips := filter (\<lambda>t. trip_id t \<notin> set ids) (trips d)\<rparr>"

definition delete_trips_by_route_id :: "string list \<Rightarrow> db \<Rightarrow> db" where
  "delete_trips_by_route_id ids d =
     d\<lparr>trips := filter (\<lambda>t. trip_route_id t \<notin> set ids) (trips d)\<rparr>"

definition delete_stops :: "string list \<Rightarrow> db \<Rightarrow> db" where
  "delete_stops ids d = d\<lparr>stops := filter (\<lambda>s. stop_id s \<notin> set ids) (stops d)\<rparr>"

definition delete_routes :: "string list \<Rightarrow> db \<Rightarrow> db" where
  "delete_routes ids d = d\<lparr>routes := filter (\<lambda>r. route_id r \<notin> set ids) (routes d)\<rparr>"

definition delete_stop_times_by_stop_id :: "string list \<Rightarrow> db \<Rightarrow> db" where
  "delete_stop_times_by_stop_id ids d =
     d\<lparr>stop_times := filter (\<lambda>st. st_stop_id st \<notin> set ids) (stop_times d)\<rparr>"

definition delete_cache_by_stop_id :: "string list \<Rightarrow> db \<Rightarrow> db" where
  "delete_cache_by_stop_id ids d =
     d\<lparr>cache_stop_routes := filter (\<lambda>c. cache_stop_id c \<notin> set ids) (cache_stop_routes d)\<rparr>"

definition delete_cache_by_route_id :: "string list \<Rightarrow> db \<Rightarrow> db" where
  "delete_cache_by_route_id ids d =
     d\<lparr>cache_stop_routes := filter (\<lambda>c. cache_route_id c \<notin> set ids) (cache_stop_routes d)\<rparr>"

text \<open>\<open>DELETE FROM stops WHERE stop_id LIKE pattern\<close>.\<close>

definition delete_stops_like :: "string \<Rightarrow> db \<Rightarrow> db" where
  "delete_stops_like pattern d =
     d\<lparr>stops := filter (\<lambda>s. \<not> sql_like pattern (stop_id s)) (stops d)\<rparr>"

section \<open>The reconciler\<close>

text \<open>
  \<open>remove_trips\<close>: the stops and the routes of the given trips are selected first (the
  two Python sets, here lists without duplicates), then the trips, those stops, the cache
  rows of those stops and those routes are deleted, in this order.
\<close>

definition trips_stop_ids :: "db \<Rightarrow> string list \<Rightarrow> string list" where
  "trips_stop_ids d trip_ids =
     remdups (map st_stop_id (filter (\<lambda>st. st_trip_id st \<in> set trip_ids) (stop_times d)))"

definition trips_route_ids :: "db \<Rightarrow> string list \<Rightarrow> string list" where
  "trips_route_ids d trip_ids =
     remdups (map trip_route_id (filter (\<lambda>t. trip_id t \<in> set trip_ids) (trips d)))"

definition remove_trips :: "db \<Rightarrow> string list \<Rightarrow> db" where
  "remove_trips d trip_ids =
     (let stop_ids = trips_stop_ids d trip_ids;
          route_ids = trips_route_ids d trip_ids
      in delete_routes route_ids
           (delete_cache_by_stop_id stop_ids
             (delete_stops stop_ids
               (delete_trips_by_trip_id trip_ids d))))"

text \<open>
  \<open>remove_elevators\<close>: the trips whose service identifier matches one of the two
  elevator patterns, the deletion of the stops matching the elevator pattern, the cascade
  of \<open>remove_trips\<close>, and the deletion of the stops once more.
\<close>

definition elevator_trip_ids :: "db \<Rightarrow> string list" where
  "elevator_trip_ids d =
     map trip_id
       (filter (\<lambda>t. sql_like ''AST-ASCESC%'' (trip_service_id t)
                  \<or> sql_like ''AST-___ASC'' (trip_service_id t)) (trips d))"

definition remove_elevators :: "db \<Rightarrow> db" where
  "remove_elevators d =
     (let trip_ids = elevator_trip_ids d
      in delete_stops_like ''AST-___ASC''
           (remove_trips (delete_stops_like ''AST-___ASC'' d) trip_ids))"

text \<open>
  \<open>remove_atoumod_duplicates\<close>: every route of the primary feed (identifier like
  \<open>AST-%\<close>) gives two names, its long name with each \<open><>\<close> removed and with each \<open><>\<close>
  replaced by a slash; the routes of the secondary feed (identifier like \<open>ATM-%\<close>) whose
  long name is one of these names are selected, and the trips, the routes and the cache
  rows of the selected identifiers are deleted.
\<close>

definition astuce_route_long_names :: "db \<Rightarrow> string list" where
  "astuce_route_long_names d =
     concat (map (\<lambda>r. [replace (route_long_name r) ''<>'' '''',
                        replace (route_long_name r) ''<>'' ''/''])
                 (filter (\<lambda>r. sql_like ''AST-%'' (route_id r)) (routes d)))"

definition atoumod_duplicate_ids :: "db \<Rightarrow> string list" where
  "atoumod_duplicate_ids d =
     map route_id
       (filter (\<lambda>r. route_long_name r \<in> set (astuce_route_long_names d)
                  \<and> sql_like ''ATM-%'' (route_id r)) (routes d))"

definition remove_atoumod_duplicates :: "db \<Rightarrow> db" where
  "remove_atoumod_duplicates d =
     (let route_ids = atoumod_duplicate_ids d
      in delete_cache_by_route_id route_ids
           (delete_routes route_ids
             (delete_trips_by_route_id route_ids d)))"

text \<open>
  The three orphan sweeps. Each selects identifiers with a \<open>LEFT JOIN\<close> that keeps the
  rows without a partner, then deletes the rows carrying one of them.
\<close>

definition orphaned_stop_ids :: "db \<Rightarrow> string list" where
  "orphaned_stop_ids d =
     remdups (map st_stop_id
       (filter (\<lambda>st. st_stop_id st \<notin> set (map stop_id (stops d))) (stop_times d)))"

definition remove_orphaned_stop_times :: "db \<Rightarrow> db" where
  "remove_orphaned_stop_times d = delete_stop_times_by_stop_id (orphaned_stop_ids d) d"

definition orphaned_trip_ids :: "db \<Rightarrow> string list" where
  "orphaned_trip_ids d =
     remdups (map trip_id
       (filter (\<lambda>t. trip_id t \<notin> set (map st_trip_id (stop_times d))) (trips d)))"

definition remove_orphaned_trips :: "db \<Rightarrow> db" where
  "remove_orphaned_trips d = delete_trips_by_trip_id (orphaned_trip_ids d) d"

definition orphaned_route_ids :: "db \<Rightarrow> string list" where
  "orphaned_route_ids d =
     remdups (map route_id
       (filter (\<lambda>r. route_id r \<notin> set (map trip_route_id (trips d))) (routes d)))"

definition remove_orphaned_routes :: "db \<Rightarrow> db" where
  "remove_orphaned_routes d = delete_routes (orphaned_route_ids d) d"

text \<open>The sweeps in the order of \<open>generate_transport_database\<close>.\<close>

definition orphan_sweep :: "db \<Rightarrow> db" where
  "orphan_sweep d =
     remove_orphaned_routes (remove_orphaned_trips (remove_orphaned_stop_times d))"

section \<open>The query engine\<close>

text \<open>
  \<open>nearby-python-serve.py\<close>. Floats are modelled as real numbers; \<open>math.sqrt\<close> and
  \<open>math.asin\<close> raise \<open>ValueError\<close> outside their domains, and \<open>int(x)\<close> truncates
  towards zero.
\<close>

definition EARTH_DIAMETER :: real where
  "EARTH_DIAMETER = 12742000"

definition py_sqrt :: "real \<Rightarrow> error + real" where
  "py_sqrt x = (if x < 0 then Inl ValueError else Inr (sqrt x))"

definition py_asin :: "real \<Rightarrow> error + real" where
  "py_asin x = (if x < - 1 \<or> 1 < x then Inl ValueError else Inr (arcsin x))"

definition py_int :: "real \<Rightarrow> int" where
  "py_int x = (if 0 \<le> x then \<lfloor>x\<rfloor> else \<lceil>x\<rceil>)"

definition gps_distance :: "real \<Rightarrow> real \<Rightarrow> real \<Rightarrow> real \<Rightarrow> error + real" where
  "gps_distance lat1 lon1 lat2 lon2 =
     (case py_sqrt ((sin ((lat2 - lat1) / 2))\<^sup>2
                    + cos lat1 * cos lat2 * (sin ((lon2 - lon1) / 2))\<^sup>2) of
        Inl e \<Rightarrow> Inl e
      | Inr r \<Rightarrow> (case py_asin r of Inl e \<Rightarrow> Inl e | Inr a \<Rightarrow> Inr (EARTH_DIAMETER * a)))"

text \<open>
  \<open>compare_positions\<close>: the distance in metres and the compass label. The division by
  the distance is reached only with a distance of 5 at least.
\<close>

definition compare_positions :: "real \<Rightarrow> real \<Rightarrow> real \<Rightarrow> real \<Rightarrow> error + int \<times> string" where
  "compare_positions lat1 lon1 lat2 lon2 =
     (let lat1 = radians lat1; lon1 = radians lon1; lat2 = radians lat2; lon2 = radians lon2
      in case gps_distance lat1 lon1 lat2 lon2 of
           Inl e \<Rightarrow> Inl e
         | Inr distance \<Rightarrow>
             if distance < 5 then Inr (py_int distance, [])
             else
               (let sin_angle = sin (radians (45 / 2))
                in case py_asin (lon2 - lon1) of
                     Inl e \<Rightarrow> Inl e
                   | Inr lon_asin \<Rightarrow>
                       (case py_asin (lat2 - lat1) of
                          Inl e \<Rightarrow> Inl e
                        | Inr lat_asin \<Rightarrow>
                            (let lon_angle = lon_asin * EARTH_DIAMETER / distance;
                                 lat_angle = lat_asin * EARTH_DIAMETER / distance;
                                 direction =
                                   (if lat_angle > 0 \<and> lat_angle > sin_angle then ''N''
                                    else if lat_angle < 0 \<and> lat_angle < - sin_angle then ''S''
                                    else []);
                                 direction =
                                   direction @
                                   (if lon_angle > 0 \<and> lon_angle > sin_angle then ''E''
                                    else if lon_angle < 0 \<and> lon_angle < - sin_angle then ''W''
                                    else [])
                             in Inr (py_int distance, direction)))))"

text \<open>
  The two \<open>if\<close>/\<open>elif\<close> chains of \<open>compare_positions\<close>, named to state its result:
  the label of the latitude axis and the label of the longitude axis.
\<close>

definition lat_label :: "real \<Rightarrow> real \<Rightarrow> string" where
  "lat_label lat_angle sin_angle =
     (if lat_angle > 0 \<and> lat_angle > sin_angle then ''N''
      else if lat_angle < 0 \<and> lat_angle < - sin_angle then ''S'' else [])"

definition lon_label :: "real \<Rightarrow> real \<Rightarrow> string" where
  "lon_label lon_angle sin_angle =
     (if lon_angle > 0 \<and> lon_angle > sin_angle then ''E''
      else if lon_angle < 0 \<and> lon_angle < - sin_angle then ''W'' else [])"

text \<open>
  \<open>prepare_stations\<close> runs over the rows that \<open>find_stations\<close> returns (ordered by
  distance, then by the school flag). \<open>near_points\<close> is a dictionary from stop names to
  groups, in insertion order; \<open>used\<close> is one set of (short name, school flag) pairs for
  the whole result.
\<close>

record station_row =
  row_id :: string
  row_stop_name :: string
  row_route_short_name :: string
  row_route_long_name :: string
  row_school :: int
  row_distance :: real

record route_point =
  point_name :: string
  point_long_name :: string
  point_school :: bool
  point_type :: string

record station_group =
  points :: "route_point list"
  distance_min :: int
  distance_max :: int

type_synonym near_points = "(string \<times> station_group) list"

fun update_group ::
  "string \<Rightarrow> (station_group \<Rightarrow> station_group) \<Rightarrow> near_points \<Rightarrow> near_points" where
  "update_group key f [] = []"
| "update_group key f ((k, g) # groups) =
     (if k = key then (k, f g) # groups
      else (k, g) # update_group key f groups)"

definition station_step ::
  "near_points \<times> (string \<times> bool) list \<Rightarrow> station_row \<Rightarrow> near_points \<times> (string \<times> bool) list" where
  "station_step state row =
     (let near_points = fst state; used = snd state;
          route_short_name = row_route_short_name row;
          school = (row_school row \<noteq> 0)
      in if (route_short_name, school) \<in> set used then state
         else if school \<and> (route_short_name, False) \<in> set used then state
         else
           (let distance = py_int (row_distance row);
                stop_name = row_stop_name row;
                route_long_name = row_route_long_name row;
                atoumod = startswith (row_id row) ''ATM-'';
                near_points =
                  (if stop_name \<notin> fst ` set near_points
                   then near_points @
                          [(stop_name, \<lparr>points = [], distance_min = distance,
                                        distance_max = distance\<rparr>)]
                   else near_points);
                near_points =
                  update_group stop_name
                    (\<lambda>g. g\<lparr>distance_min := min (distance_min g) distance\<rparr>) near_points;
                near_points =
                  update_group stop_name
                    (\<lambda>g. g\<lparr>distance_max := max (distance_max g) distance\<rparr>) near_points;
                used = (route_short_name, school) # used;
                near_points =
                  update_group stop_name
                    (\<lambda>g. g\<lparr>points := points g @
                          [\<lparr>point_name = route_short_name, point_long_name = route_long_name,
                            point_school = school,
                            point_type = (if atoumod then ''atoumod'' else ''astuce'')\<rparr>]\<rparr>)
                    near_points
            in (near_points, used)))"

definition prepare_stations :: "station_row list \<Rightarrow> near_points" where
  "prepare_stations rows = fst (foldl station_step ([], []) rows)"

text \<open>
  What the dedup of \<open>prepare_stations\<close> is judged on: the key of a row, the keys of all
  the entries of a result in the order of its groups, and the test of the two \<open>continue\<close>
  statements.
\<close>

definition row_key :: "station_row \<Rightarrow> string \<times> bool" where
  "row_key row = (row_route_short_name row, row_school row \<noteq> 0)"

definition result_pairs :: "near_points \<Rightarrow> (string \<times> bool) list" where
  "result_pairs groups =
     concat (map (\<lambda>(k, g). map (\<lambda>p. (point_name p, point_school p)) (points g)) groups)"

definition skipped :: "(string \<times> bool) list \<Rightarrow> station_row \<Rightarrow> bool" where
  "skipped used row \<longleftrightarrow>
     row_key row \<in> set used \<or> (row_school row \<noteq> 0 \<and> (row_route_short_name row, False) \<in> set used)"

definition state_ok :: "station_row list \<Rightarrow> near_points \<times> (string \<times> bool) list \<Rightarrow> bool" where
  "state_ok seen state \<longleftrightarrow>
     mset (result_pairs (fst state)) = mset (snd state)
     \<and> distinct (snd state)
     \<and> (\<forall>row \<in> set seen. skipped (snd state) row \<or> row_key row \<in> set (snd state))
     \<and> set (snd state) \<subseteq> row_key ` set seen"

text \<open>
  The rows of a query that get an entry, told from the rows alone. \<open>kept_row rows i\<close>:
  every row before row \<open>i\<close> with the short name of row \<open>i\<close> is a school row, and row
  \<open>i\<close> itself is regular service. \<open>recorded_from\<close> makes the same selection with the
  rows already gone through as an argument.
\<close>

definition kept_row :: "station_row list \<Rightarrow> nat \<Rightarrow> bool" where
  "kept_row rows i \<longleftrightarrow>
     (\<forall>p \<in> set (take i rows). row_route_short_name p = row_route_short_name (rows ! i)
        \<longrightarrow> row_school p \<noteq> 0 \<and> row_school (rows ! i) = 0)"

definition recorded_rows :: "station_row list \<Rightarrow> station_row list" where
  "recorded_rows rows = map (\<lambda>i. rows ! i) (filter (kept_row rows) [0..<length rows])"

fun recorded_from :: "station_row list \<Rightarrow> station_row list \<Rightarrow> station_row list" where
  "recorded_from seen [] = []"
| "recorded_from seen (row # rows) =
     (if \<forall>p \<in> set seen. row_route_short_name p = row_route_short_name row
            \<longrightarrow> row_school p \<noteq> 0 \<and> row_school row = 0
      then [row] else [])
     @ recorded_from (seen @ [row]) rows"

text \<open>
  The entry appended for a row, the last branch of the loop body of \<open>prepare_stations\<close>
  on its own (the row is recorded in the group of its stop name), and what the groups of
  a result hold for given recorded rows: the stop names in order of first appearance, and
  for a stop name the entries of its rows in order with their least and greatest distance.
\<close>

definition point_of_row :: "station_row \<Rightarrow> route_point" where
  "point_of_row row =
     \<lparr>point_name = row_route_short_name row, point_long_name = row_route_long_name row,
      point_school = (row_school row \<noteq> 0),
      point_type = (if startswith (row_id row) ''ATM-'' then ''atoumod'' else ''astuce'')\<rparr>"

definition record_row :: "near_points \<Rightarrow> station_row \<Rightarrow> near_points" where
  "record_row groups row =
     (let d = py_int (row_distance row); name = row_stop_name row;
          g1 = (if name \<notin> fst ` set groups
                then groups @ [(name, \<lparr>points = [], distance_min = d, distance_max = d\<rparr>)]
                else groups);
          g2 = update_group name (\<lambda>g. g\<lparr>distance_min := min (distance_min g) d\<rparr>) g1;
          g3 = update_group name (\<lambda>g. g\<lparr>distance_max := max (distance_max g) d\<rparr>) g2
      in update_group name (\<lambda>g. g\<lparr>points := points g @ [point_of_row row]\<rparr>) g3)"

definition stop_names_of :: "station_row list \<Rightarrow> string list" where
  "stop_names_of rows = rev (remdups (rev (map row_stop_name rows)))"

definition group_of :: "station_row list \<Rightarrow> string \<Rightarrow> station_group" where
  "group_of recorded name =
     (let mine = filter (\<lambda>r. row_stop_name r = name) recorded;
          distances = map (\<lambda>r. py_int (row_distance r)) mine
      in \<lparr>points = map point_of_row mine,
          distance_min = Min (set distances), distance_max = Max (set distances)\<rparr>)"

text \<open>Invariants of the loop of \<open>prepare_stations\<close>, for the set \<open>used\<close> and for the groups.\<close>

definition used_ok :: "station_row list \<Rightarrow> (string \<times> bool) list \<Rightarrow> bool" where
  "used_ok seen used \<longleftrightarrow>
     (\<forall>n. (n, False) \<in> set used \<longleftrightarrow> (\<exists>p \<in> set seen. row_key p = (n, False)))
     \<and> (\<forall>n. (n, True) \<in> set used \<longrightarrow> (\<exists>p \<in> set seen. row_key p = (n, True)))
     \<and> (\<forall>p \<in> set seen. (row_route_short_name p, False) \<in> set used
                        \<or> (row_route_short_name p, True) \<in> set used)"

definition groups_ok :: "near_points \<Rightarrow> station_row list \<Rightarrow> bool" where
  "groups_ok groups recorded \<longleftrightarrow>
     map fst groups = stop_names_of recorded
     \<and> (\<forall>name g. map_of groups name = Some g \<longrightarrow> g = group_of recorded name)"


section \<open>Example data\<close>

text \<open>Rows as \<open>find_stations\<close> returns them: two stops, the line T1 at both.\<close>

definition two_stops_rows :: "station_row list" where
  "two_stops_rows =
     [\<lparr>row_id = ''AST-1'', row_stop_name = ''Alpha'', row_route_short_name = ''T1'',
       row_route_long_name = ''Ligne 1'', row_school = 0, row_distance = 10\<rparr>,
      \<lparr>row_id = ''AST-2'', row_stop_name = ''Beta'', row_route_short_name = ''T1'',
       row_route_long_name = ''Ligne 1'', row_school = 0, row_distance = 20\<rparr>,
      \<lparr>row_id = ''AST-2'', row_stop_name = ''Beta'', row_route_short_name = ''T1'',
       row_route_long_name = ''Ligne 1'', row_school = 1, row_distance = 20\<rparr>,
      \<lparr>row_id = ''AST-2'', row_stop_name = ''Beta'', row_route_short_name = ''T2'',
       row_route_long_name = ''Ligne 2'', row_school = 0, row_distance = 25\<rparr>]"

text \<open>Stores used to run the reconciler on concrete data.\<close>

definition sweep_example :: db where
  "sweep_example =
     \<lparr>routes = [\<lparr>route_id = ''AST-R1'', route_short_name = ''1'', route_long_name = ''A''\<rparr>,
                \<lparr>route_id = ''AST-R2'', route_short_name = ''2'', route_long_name = ''B''\<rparr>],
      stops = [\<lparr>stop_id = ''AST-S1'', stop_name = ''X''\<rparr>],
      stop_times = [\<lparr>st_trip_id = ''AST-T1'', st_stop_id = ''AST-S1''\<rparr>,
                    \<lparr>st_trip_id = ''AST-T2'', st_stop_id = ''AST-S9''\<rparr>],
      trips = [\<lparr>trip_id = ''AST-T1'', trip_route_id = ''AST-R1'', trip_service_id = ''AST-X''\<rparr>,
               \<lparr>trip_id = ''AST-T2'', trip_route_id = ''AST-R2'', trip_service_id = ''AST-X''\<rparr>],
      cache_stop_routes = []\<rparr>"

definition shared_example :: db where
  "shared_example =
     \<lparr>routes = [\<lparr>route_id = ''AST-R1'', route_short_name = ''1'', route_long_name = ''A''\<rparr>],
      stops = [\<lparr>stop_id = ''AST-S1'', stop_name = ''X''\<rparr>],
      stop_times = [\<lparr>st_trip_id = ''AST-T1'', st_stop_id = ''AST-S1''\<rparr>,
                    \<lparr>st_trip_id = ''AST-T2'', st_stop_id = ''AST-S1''\<rparr>],
      trips = [\<lparr>trip_id = ''AST-T1'', trip_route_id = ''AST-R1'', trip_service_id = ''AST-A''\<rparr>,
               \<lparr>trip_id = ''AST-T2'', trip_route_id = ''AST-R1'', trip_service_id = ''AST-A''\<rparr>],
      cache_stop_routes =
        [\<lparr>cache_stop_id = ''AST-S1'', cache_route_id = ''AST-R1'', cache_school = 0\<rparr>]\<rparr>"


definition slash_example :: db where
  "slash_example =
     \<lparr>routes = [\<lparr>route_id = ''AST-1'', route_short_name = ''1'', route_long_name = ''A <> B''\<rparr>,
                \<lparr>route_id = ''ATM-2'', route_short_name = ''1'', route_long_name = ''A/B''\<rparr>,
                \<lparr>route_id = ''ATM-3'', route_short_name = ''1'', route_long_name = ''A  B''\<rparr>,
                \<lparr>route_id = ''ATM-4'', route_short_name = ''1'', route_long_name = ''A / B''\<rparr>],
      stops = [\<lparr>stop_id = ''ATM-S1'', stop_name = ''X''\<rparr>],
      stop_times = [\<lparr>st_trip_id = ''ATM-T2'', st_stop_id = ''ATM-S1''\<rparr>],
      trips = [\<lparr>trip_id = ''ATM-T2'', trip_route_id = ''ATM-2'', trip_service_id = ''ATM-A''\<rparr>,
               \<lparr>trip_id = ''ATM-T3'', trip_route_id = ''ATM-3'', trip_service_id = ''ATM-A''\<rparr>],
      cache_stop_routes =
        [\<lparr>cache_stop_id = ''ATM-S1'', cache_route_id = ''ATM-2'', cache_school = 0\<rparr>,
         \<lparr>cache_stop_id = ''ATM-S1'', cache_route_id = ''ATM-4'', cache_school = 0\<rparr>]\<rparr>"

text \<open>Rows of \<open>stops.txt\<close>, a parser for their coordinates, and a record of a feed.\<close>

definition example_float :: "string \<Rightarrow> error + pyfloat" where
  "example_float s =
     (if s = ''49.25066'' then Inr (Finite 49.25066)
      else if s = ''1.28984'' then Inr (Finite 1.28984)
      else if s = ''49.2'' then Inr (Finite 49.2)
      else if s = ''49.44'' then Inr (Finite 49.44)
      else if s = ''1.09'' then Inr (Finite 1.09)
      else if s = ''nan'' then Inr NaN
      else if s = ''inf'' then Inr PosInf
      else Inl ValueError)"




text \<open>A row of the cycling feed, its coordinates as (x, y): longitude, then latitude.\<close>

definition cycle_row :: py_dict where
  "cycle_row = [(''id_local'', PyStr ''7''), (''coordonneesxy'', PyStr ''(1.09,49.44)''),
                (''mobilier'', PyStr ''ARCEAU''), (''acces'', PyStr ''LIBRE ACCES'')]"

definition example_record :: py_dict where
  "example_record = [(''stop_id'', PyStr ''12''), (''stop_code'', PyStr ''x''),
                     (''stop_name'', PyStr ''Gare'')]"

section \<open>Evaluation and helper lemmas\<close>

lemmas delete_defs = delete_trips_by_trip_id_def delete_trips_by_route_id_def delete_stops_def
  delete_routes_def delete_stop_times_by_stop_id_def delete_cache_by_stop_id_def
  delete_cache_by_route_id_def delete_stops_like_def

lemmas char_case_defs = upper_char_def lower_char_def ascii_lowercase_def ascii_uppercase_def
  is_lower_def is_upper_def

lemmas sweep_defs = orphan_sweep_def remove_orphaned_routes_def remove_orphaned_trips_def
  remove_orphaned_stop_times_def orphaned_route_ids_def orphaned_trip_ids_def
  orphaned_stop_ids_def

lemmas dup_defs = remove_atoumod_duplicates_def atoumod_duplicate_ids_def
  astuce_route_long_names_def

lemmas remove_trips_defs = remove_trips_def trips_stop_ids_def trips_route_ids_def

lemma sweep_example_eval:
  "orphan_sweep sweep_example =
     \<lparr>routes = [\<lparr>route_id = ''AST-R1'', route_short_name = ''1'', route_long_name = ''A''\<rparr>],
      stops = [\<lparr>stop_id = ''AST-S1'', stop_name = ''X''\<rparr>],
      stop_times = [\<lparr>st_trip_id = ''AST-T1'', st_stop_id = ''AST-S1''\<rparr>],
      trips = [\<lparr>trip_id = ''AST-T1'', trip_route_id = ''AST-R1'', trip_service_id = ''AST-X''\<rparr>],
      cache_stop_routes = []\<rparr>"
  by (simp add: sweep_example_def sweep_defs delete_defs)

lemma slash_example_eval:
  "remove_atoumod_duplicates slash_example =
     \<lparr>routes = [\<lparr>route_id = ''AST-1'', route_short_name = ''1'', route_long_name = ''A <> B''\<rparr>,
                \<lparr>route_id = ''ATM-2'', route_short_name = ''1'', route_long_name = ''A/B''\<rparr>],
      stops = [\<lparr>stop_id = ''ATM-S1'', stop_name = ''X''\<rparr>],
      stop_times = [\<lparr>st_trip_id = ''ATM-T2'', st_stop_id = ''ATM-S1''\<rparr>],
      trips = [\<lparr>trip_id = ''ATM-T2'', trip_route_id = ''ATM-2'', trip_service_id = ''ATM-A''\<rparr>],
      cache_stop_routes =
        [\<lparr>cache_stop_id = ''ATM-S1'', cache_route_id = ''ATM-2'', cache_school = 0\<rparr>]\<rparr>"
  by (simp add: slash_example_def dup_defs delete_defs replace_def startswith_def char_case_defs)

section \<open>The orphan sweeps\<close>

lemma kept_has_partner:
  "x \<in> set xs \<Longrightarrow> f x \<notin> set (remdups (map f (filter (\<lambda>y. f y \<notin> B) xs))) \<Longrightarrow> f x \<in> B"
  by force

lemma sweep_stop_times_sound:
  assumes "st \<in> set (stop_times (remove_orphaned_stop_times d))"
  shows "\<exists>s \<in> set (stops (remove_orphaned_stop_times d)). stop_id s = st_stop_id st"
proof -
  from assms have "st \<in> set (stop_times d)" and "st_stop_id st \<notin> set (orphaned_stop_ids d)"
    by (simp_all add: remove_orphaned_stop_times_def delete_stop_times_by_stop_id_def)
  then have "st_stop_id st \<in> set (map stop_id (stops d))"
    unfolding orphaned_stop_ids_def by (rule kept_has_partner)
  then show ?thesis
    by (auto simp: remove_orphaned_stop_times_def delete_stop_times_by_stop_id_def)
qed

lemma sweep_trips_frame:
  "stops (remove_orphaned_trips d) = stops d"
  "stop_times (remove_orphaned_trips d) = stop_times d"
  by (simp_all add: remove_orphaned_trips_def delete_trips_by_trip_id_def)

lemma sweep_trips_sound:
  assumes "t \<in> set (trips (remove_orphaned_trips d))"
  shows "\<exists>st \<in> set (stop_times d). st_trip_id st = trip_id t"
proof -
  from assms have "t \<in> set (trips d)" and "trip_id t \<notin> set (orphaned_trip_ids d)"
    by (simp_all add: remove_orphaned_trips_def delete_trips_by_trip_id_def)
  then have "trip_id t \<in> set (map st_trip_id (stop_times d))"
    unfolding orphaned_trip_ids_def by (rule kept_has_partner)
  then show ?thesis by auto
qed

lemma sweep_routes_frame:
  "stops (remove_orphaned_routes d) = stops d"
  "stop_times (remove_orphaned_routes d) = stop_times d"
  "trips (remove_orphaned_routes d) = trips d"
  by (simp_all add: remove_orphaned_routes_def delete_routes_def)

lemma sweep_routes_sound:
  assumes "r \<in> set (routes (remove_orphaned_routes d))"
  shows "\<exists>t \<in> set (trips d). trip_route_id t = route_id r"
proof -
  from assms have "r \<in> set (routes d)" and "route_id r \<notin> set (orphaned_route_ids d)"
    by (simp_all add: remove_orphaned_routes_def delete_routes_def)
  then have "route_id r \<in> set (map trip_route_id (trips d))"
    unfolding orphaned_route_ids_def by (rule kept_has_partner)
  then show ?thesis by auto
qed

text \<open>
  Claim C4. After one pass of the three orphan sweeps, in the order stop_times, trips,
  routes, and from any store: every StopTime references a Stop of the stops table, every
  Trip has a StopTime, and every Route has a Trip.
\<close>

theorem orphan_sweep_invariants:
  "(\<forall>st \<in> set (stop_times (orphan_sweep d)).
      \<exists>s \<in> set (stops (orphan_sweep d)). stop_id s = st_stop_id st)
   \<and> (\<forall>t \<in> set (trips (orphan_sweep d)).
      \<exists>st \<in> set (stop_times (orphan_sweep d)). st_trip_id st = trip_id t)
   \<and> (\<forall>r \<in> set (routes (orphan_sweep d)).
      \<exists>t \<in> set (trips (orphan_sweep d)). trip_route_id t = route_id r)"
proof (intro conjI ballI)
  fix st assume "st \<in> set (stop_times (orphan_sweep d))"
  then have "st \<in> set (stop_times (remove_orphaned_stop_times d))"
    by (simp add: orphan_sweep_def sweep_routes_frame sweep_trips_frame)
  from sweep_stop_times_sound [OF this]
  show "\<exists>s \<in> set (stops (orphan_sweep d)). stop_id s = st_stop_id st"
    by (simp add: orphan_sweep_def sweep_routes_frame sweep_trips_frame)
next
  fix t assume "t \<in> set (trips (orphan_sweep d))"
  then have "t \<in> set (trips (remove_orphaned_trips (remove_orphaned_stop_times d)))"
    by (simp add: orphan_sweep_def sweep_routes_frame)
  from sweep_trips_sound [OF this]
  show "\<exists>st \<in> set (stop_times (orphan_sweep d)). st_trip_id st = trip_id t"
    by (simp add: orphan_sweep_def sweep_routes_frame sweep_trips_frame)
next
  fix r assume "r \<in> set (routes (orphan_sweep d))"
  then show "\<exists>t \<in> set (trips (orphan_sweep d)). trip_route_id t = route_id r"
    unfolding orphan_sweep_def by (simp add: sweep_routes_frame sweep_routes_sound)
qed

theorem orphan_sweep_invariants_witness:
  "stop_times (orphan_sweep sweep_example) = [\<lparr>st_trip_id = ''AST-T1'', st_stop_id = ''AST-S1''\<rparr>]
   \<and> (\<exists>s \<in> set (stops (orphan_sweep sweep_example)). stop_id s = ''AST-S1'')
   \<and> trips (orphan_sweep sweep_example) =
       [\<lparr>trip_id = ''AST-T1'', trip_route_id = ''AST-R1'', trip_service_id = ''AST-X''\<rparr>]
   \<and> (\<exists>st \<in> set (stop_times (orphan_sweep sweep_example)). st_trip_id st = ''AST-T1'')
   \<and> routes (orphan_sweep sweep_example) =
       [\<lparr>route_id = ''AST-R1'', route_short_name = ''1'', route_long_name = ''A''\<rparr>]
   \<and> (\<exists>t \<in> set (trips (orphan_sweep sweep_example)). trip_route_id t = ''AST-R1'')"
  using orphan_sweep_invariants [of sweep_example]
  by (simp add: sweep_example_eval)

section \<open>The cascade of \<open>remove_trips\<close>\<close>

text \<open>
  Claim C10. \<open>remove_trips\<close> deletes the given trips, every Stop that a StopTime of one
  of these trips names, every StopRouteCache row of such a Stop, and every Route that one
  of these trips belongs to. Nothing in these conditions looks at the trips outside the
  set, so a Stop or a Route that a surviving trip still uses is deleted as well (the
  witness: trip T2 survives, its stop and its route are gone). StopTimes are left as they
  are. The statement holds for the empty set too.
\<close>

theorem remove_trips_cascade:
  "(\<forall>t. t \<in> set (trips (remove_trips d trip_ids)) \<longleftrightarrow>
        t \<in> set (trips d) \<and> trip_id t \<notin> set trip_ids)
   \<and> (\<forall>s. s \<in> set (stops (remove_trips d trip_ids)) \<longleftrightarrow>
        s \<in> set (stops d) \<and>
        \<not> (\<exists>st \<in> set (stop_times d). st_trip_id st \<in> set trip_ids \<and> st_stop_id st = stop_id s))
   \<and> (\<forall>c. c \<in> set (cache_stop_routes (remove_trips d trip_ids)) \<longleftrightarrow>
        c \<in> set (cache_stop_routes d) \<and>
        \<not> (\<exists>st \<in> set (stop_times d).
              st_trip_id st \<in> set trip_ids \<and> st_stop_id st = cache_stop_id c))
   \<and> (\<forall>r. r \<in> set (routes (remove_trips d trip_ids)) \<longleftrightarrow>
        r \<in> set (routes d) \<and>
        \<not> (\<exists>t \<in> set (trips d). trip_id t \<in> set trip_ids \<and> trip_route_id t = route_id r))
   \<and> stop_times (remove_trips d trip_ids) = stop_times d"
  unfolding remove_trips_def Let_def trips_stop_ids_def trips_route_ids_def delete_defs
  by (intro conjI allI; force)

theorem remove_trips_cascade_witness:
  "trips (remove_trips shared_example [''AST-T1'']) =
     [\<lparr>trip_id = ''AST-T2'', trip_route_id = ''AST-R1'', trip_service_id = ''AST-A''\<rparr>]
   \<and> stops (remove_trips shared_example [''AST-T1'']) = []
   \<and> cache_stop_routes (remove_trips shared_example [''AST-T1'']) = []
   \<and> routes (remove_trips shared_example [''AST-T1'']) = []
   \<and> stop_times (remove_trips shared_example [''AST-T1'']) = stop_times shared_example"
  using remove_trips_cascade [of shared_example "[''AST-T1'']"]
  by (simp add: shared_example_def remove_trips_defs delete_defs)

section \<open>Steps on an empty identifier set\<close>



section \<open>Duplicate routes across the two feeds\<close>

lemma astuce_not_atoumod: "sql_like ''AST-%'' s \<Longrightarrow> \<not> sql_like ''ATM-%'' s"
  by (cases s; cases "tl s"; simp add: char_case_defs split: list.splits if_splits)

lemma replace_from_no_first:
  "hd old \<notin> set s \<Longrightarrow> replace_from old new s = s"
  by (induction s) (auto simp: startswith_def take_Cons' neq_Nil_conv split: if_splits)

lemma replace_marker_between:
  assumes "CHR ''<'' \<notin> set a" "CHR ''<'' \<notin> set b"
  shows "replace (a @ '' <> '' @ b) ''<>'' new = a @ '' '' @ new @ '' '' @ b"
  using assms
proof (induction a)
  case Nil
  then show ?case using replace_from_no_first [of "''<>''" b new]
    by (simp add: replace_def startswith_def)
next
  case (Cons c a)
  then show ?case by (auto simp: replace_def startswith_def)
qed

lemma dup_routes_iff:
  "q \<in> set (routes (remove_atoumod_duplicates d)) \<longleftrightarrow>
     q \<in> set (routes d) \<and> route_id q \<notin> set (atoumod_duplicate_ids d)"
  by (simp add: remove_atoumod_duplicates_def Let_def delete_defs)

lemma dup_trips_iff:
  "t \<in> set (trips (remove_atoumod_duplicates d)) \<longleftrightarrow>
     t \<in> set (trips d) \<and> trip_route_id t \<notin> set (atoumod_duplicate_ids d)"
  by (simp add: remove_atoumod_duplicates_def Let_def delete_defs)

lemma dup_cache_iff:
  "c \<in> set (cache_stop_routes (remove_atoumod_duplicates d)) \<longleftrightarrow>
     c \<in> set (cache_stop_routes d) \<and> cache_route_id c \<notin> set (atoumod_duplicate_ids d)"
  by (simp add: remove_atoumod_duplicates_def Let_def delete_defs)

lemma dup_frame:
  "stops (remove_atoumod_duplicates d) = stops d"
  "stop_times (remove_atoumod_duplicates d) = stop_times d"
  by (simp_all add: remove_atoumod_duplicates_def Let_def delete_defs)

lemma dup_names_iff:
  "n \<in> set (astuce_route_long_names d) \<longleftrightarrow>
     (\<exists>p \<in> set (routes d). sql_like ''AST-%'' (route_id p)
        \<and> (n = replace (route_long_name p) ''<>'' []
           \<or> n = replace (route_long_name p) ''<>'' ''/''))"
  unfolding astuce_route_long_names_def by auto

lemma dup_ids_iff:
  "i \<in> set (atoumod_duplicate_ids d) \<longleftrightarrow>
     (\<exists>q \<in> set (routes d). route_id q = i \<and> sql_like ''ATM-%'' (route_id q)
        \<and> (\<exists>p \<in> set (routes d). sql_like ''AST-%'' (route_id p)
             \<and> (route_long_name q = replace (route_long_name p) ''<>'' []
                \<or> route_long_name q = replace (route_long_name p) ''<>'' ''/'')))"
  unfolding atoumod_duplicate_ids_def set_map set_filter image_iff mem_Collect_eq dup_names_iff
  by blast

lemma dup_ids_atoumod:
  "i \<in> set (atoumod_duplicate_ids d) \<Longrightarrow> sql_like ''ATM-%'' i"
  unfolding dup_ids_iff by blast

text \<open>
  Claim C3, as stated, fails on the slash form. With the primary route \<open>A <> B\<close> in the
  store, the secondary route named \<open>A/B\<close> and its trip and cache row are all still
  there after the elimination.
\<close>

theorem atoumod_slash_form_counterexample:
  "\<lparr>route_id = ''AST-1'', route_short_name = ''1'', route_long_name = ''A <> B''\<rparr>
     \<in> set (routes slash_example)
   \<and> \<lparr>route_id = ''ATM-2'', route_short_name = ''1'', route_long_name = ''A/B''\<rparr>
     \<in> set (routes (remove_atoumod_duplicates slash_example))
   \<and> \<lparr>trip_id = ''ATM-T2'', trip_route_id = ''ATM-2'', trip_service_id = ''ATM-A''\<rparr>
     \<in> set (trips (remove_atoumod_duplicates slash_example))
   \<and> \<lparr>cache_stop_id = ''ATM-S1'', cache_route_id = ''ATM-2'', cache_school = 0\<rparr>
     \<in> set (cache_stop_routes (remove_atoumod_duplicates slash_example))"
  by (simp add: slash_example_eval) (simp add: slash_example_def)

text \<open>
  Claim C3, amended. For a route \<open>r\<close> of the primary feed named \<open>a <> b\<close> (no \<open><\<close> in
  \<open>a\<close> or \<open>b\<close>): \<open>r\<close> survives; every route of the secondary feed named \<open>a  b\<close> (the
  marker removed, two spaces left) or \<open>a / b\<close> (the marker replaced by a slash, its
  spaces kept) is deleted, and no trip and no cache row of its identifier remains. The
  deletion is exact: the routes, trips and cache rows that go are those whose route
  identifier is selected, and an identifier is selected exactly when a route of the
  secondary feed carries it whose long name is one of the two forms of some route of the
  primary feed. Stops and StopTimes are untouched.
\<close>

theorem atoumod_duplicates_removed:
  assumes "r \<in> set (routes d)" and "sql_like ''AST-%'' (route_id r)"
    and "route_long_name r = a @ '' <> '' @ b"
    and "CHR ''<'' \<notin> set a" and "CHR ''<'' \<notin> set b"
  shows "r \<in> set (routes (remove_atoumod_duplicates d))
    \<and> (\<forall>q \<in> set (routes d).
          sql_like ''ATM-%'' (route_id q)
          \<and> (route_long_name q = a @ ''  '' @ b \<or> route_long_name q = a @ '' / '' @ b)
          \<longrightarrow> q \<notin> set (routes (remove_atoumod_duplicates d))
            \<and> (\<forall>t \<in> set (trips (remove_atoumod_duplicates d)). trip_route_id t \<noteq> route_id q)
            \<and> (\<forall>c \<in> set (cache_stop_routes (remove_atoumod_duplicates d)).
                  cache_route_id c \<noteq> route_id q))
    \<and> (\<forall>q. q \<in> set (routes (remove_atoumod_duplicates d)) \<longleftrightarrow>
          q \<in> set (routes d) \<and> route_id q \<notin> set (atoumod_duplicate_ids d))
    \<and> (\<forall>t. t \<in> set (trips (remove_atoumod_duplicates d)) \<longleftrightarrow>
          t \<in> set (trips d) \<and> trip_route_id t \<notin> set (atoumod_duplicate_ids d))
    \<and> (\<forall>c. c \<in> set (cache_stop_routes (remove_atoumod_duplicates d)) \<longleftrightarrow>
          c \<in> set (cache_stop_routes d) \<and> cache_route_id c \<notin> set (atoumod_duplicate_ids d))
    \<and> (\<forall>i. i \<in> set (atoumod_duplicate_ids d) \<longleftrightarrow>
          (\<exists>q \<in> set (routes d). route_id q = i \<and> sql_like ''ATM-%'' (route_id q)
             \<and> (\<exists>p \<in> set (routes d). sql_like ''AST-%'' (route_id p)
                  \<and> (route_long_name q = replace (route_long_name p) ''<>'' []
                     \<or> route_long_name q = replace (route_long_name p) ''<>'' ''/''))))
    \<and> stops (remove_atoumod_duplicates d) = stops d
    \<and> stop_times (remove_atoumod_duplicates d) = stop_times d"
proof -
  let ?d' = "remove_atoumod_duplicates d"
  let ?ids = "atoumod_duplicate_ids d"
  have "route_id r \<notin> set ?ids"
    using assms(2) astuce_not_atoumod dup_ids_atoumod by blast
  with assms(1) have survives: "r \<in> set (routes ?d')" by (simp add: dup_routes_iff)
  have forms: "replace (route_long_name r) ''<>'' [] = a @ ''  '' @ b"
      "replace (route_long_name r) ''<>'' ''/'' = a @ '' / '' @ b"
    using replace_marker_between [OF assms(4,5)] assms(3) by simp_all
  have gone: "route_id q \<in> set ?ids"
    if q: "q \<in> set (routes d)" "sql_like ''ATM-%'' (route_id q)"
       "route_long_name q = a @ ''  '' @ b \<or> route_long_name q = a @ '' / '' @ b" for q
  proof -
    have "route_long_name q = replace (route_long_name r) ''<>'' []
        \<or> route_long_name q = replace (route_long_name r) ''<>'' ''/''"
      using q(3) forms by simp
    with q(1,2) assms(1,2) show ?thesis unfolding dup_ids_iff by blast
  qed
  have cascade: "\<forall>q \<in> set (routes d).
          sql_like ''ATM-%'' (route_id q)
          \<and> (route_long_name q = a @ ''  '' @ b \<or> route_long_name q = a @ '' / '' @ b)
          \<longrightarrow> q \<notin> set (routes ?d')
            \<and> (\<forall>t \<in> set (trips ?d'). trip_route_id t \<noteq> route_id q)
            \<and> (\<forall>c \<in> set (cache_stop_routes ?d'). cache_route_id c \<noteq> route_id q)"
  proof (intro ballI impI)
    fix q assume "q \<in> set (routes d)"
      and "sql_like ''ATM-%'' (route_id q)
          \<and> (route_long_name q = a @ ''  '' @ b \<or> route_long_name q = a @ '' / '' @ b)"
    then have "route_id q \<in> set ?ids" using gone by blast
    then show "q \<notin> set (routes ?d')
            \<and> (\<forall>t \<in> set (trips ?d'). trip_route_id t \<noteq> route_id q)
            \<and> (\<forall>c \<in> set (cache_stop_routes ?d'). cache_route_id c \<noteq> route_id q)"
      by (auto simp: dup_routes_iff dup_trips_iff dup_cache_iff)
  qed
  show ?thesis
    apply (intro conjI)
            apply (rule survives)
           apply (rule cascade)
          apply (intro allI, rule dup_routes_iff)
         apply (intro allI, rule dup_trips_iff)
        apply (intro allI, rule dup_cache_iff)
       apply (intro allI, rule dup_ids_iff)
      apply (rule dup_frame(1))
    apply (rule dup_frame(2))
    done
qed

theorem atoumod_duplicates_removed_witness:
  "sql_like ''AST-%'' ''AST-1''
   \<and> ''A <> B'' = ''A'' @ '' <> '' @ ''B''
   \<and> \<lparr>route_id = ''AST-1'', route_short_name = ''1'', route_long_name = ''A <> B''\<rparr>
       \<in> set (routes (remove_atoumod_duplicates slash_example))
   \<and> atoumod_duplicate_ids slash_example = [''ATM-3'', ''ATM-4'']
   \<and> map route_id (routes (remove_atoumod_duplicates slash_example)) = [''AST-1'', ''ATM-2'']
   \<and> map trip_route_id (trips (remove_atoumod_duplicates slash_example)) = [''ATM-2'']
   \<and> map cache_route_id (cache_stop_routes (remove_atoumod_duplicates slash_example)) = [''ATM-2'']"
proof -
  let ?r = "\<lparr>route_id = ''AST-1'', route_short_name = ''1'', route_long_name = ''A <> B''\<rparr>"
  have h1: "?r \<in> set (routes slash_example)" by (simp add: slash_example_def)
  have h2: "sql_like ''AST-%'' (route_id ?r)" by (simp add: char_case_defs)
  have h3: "route_long_name ?r = ''A'' @ '' <> '' @ ''B''" by simp
  have h4: "CHR ''<'' \<notin> set ''A''" and h5: "CHR ''<'' \<notin> set ''B''" by simp_all
  have ids: "atoumod_duplicate_ids slash_example = [''ATM-3'', ''ATM-4'']"
    by (simp add: slash_example_def atoumod_duplicate_ids_def astuce_route_long_names_def
        replace_def startswith_def char_case_defs)
  from atoumod_duplicates_removed [OF h1 h2 h3 h4 h5]
  have "?r \<in> set (routes (remove_atoumod_duplicates slash_example))" by (rule conjunct1)
  with h2 ids show ?thesis by (simp add: slash_example_eval)
qed

section \<open>Namespaced identifiers\<close>

lemma field_ids_kept:
  assumes "key \<in> set FIELD_IDS"
  shows "key \<notin> set FIELD_DROPS \<and> table_name @ ''.'' @ key \<notin> set FIELD_DROPS"
proof -
  have "rev (table_name @ ''.'' @ key) \<notin> rev ` set FIELD_DROPS"
    using assms by (auto simp: FIELD_IDS_def FIELD_DROPS_def)
  then have "table_name @ ''.'' @ key \<notin> set FIELD_DROPS" by blast
  moreover have "key \<notin> set FIELD_DROPS"
    using assms by (auto simp: FIELD_IDS_def FIELD_DROPS_def)
  ultimately show ?thesis by simp
qed

lemma import_values_identifier:
  assumes "import_values table_name base_id rc = Inr vs"
    and "key \<in> set FIELD_IDS" and "map_of rc key = Some (PyStr raw)"
  shows "map_of vs key = Some (PyStr (base_id @ raw))"
  using assms
proof (induction rc arbitrary: vs)
  case Nil
  then show ?case by simp
next
  case (Cons kv rc)
  obtain k v where kv: "kv = (k, v)" by (cases kv)
  show ?case
  proof (cases "k = key")
    case True
    with Cons.prems kv field_ids_kept [OF Cons.prems(2), of table_name] show ?thesis
      by (auto simp: prefix_id_def split: sum.splits if_splits)
  next
    case False
    with Cons kv show ?thesis
      by (auto split: sum.splits if_splits)
  qed
qed

text \<open>
  Claim C7. Two feeds with distinct namespace tags import records that hold the same raw
  identifier in an identifier field (a field of \<open>FIELD_IDS\<close>): the stored identifiers
  are the tag followed by the raw identifier, and they differ.
\<close>

theorem namespaced_ids_never_collide:
  assumes "tag1 \<noteq> tag2" and "key \<in> set FIELD_IDS"
    and "map_of record1 key = Some (PyStr raw)" and "map_of record2 key = Some (PyStr raw)"
    and "import_values table1 tag1 record1 = Inr values1"
    and "import_values table2 tag2 record2 = Inr values2"
  shows "map_of values1 key = Some (PyStr (tag1 @ raw))
       \<and> map_of values2 key = Some (PyStr (tag2 @ raw))
       \<and> map_of values1 key \<noteq> map_of values2 key"
  using import_values_identifier [OF assms(5) assms(2) assms(3)]
    import_values_identifier [OF assms(6) assms(2) assms(4)] assms(1)
  by simp

theorem namespaced_ids_never_collide_witness:
  "import_values ''stops'' ''AST-'' example_record =
     Inr [(''stop_id'', PyStr ''AST-12''), (''stop_name'', PyStr ''Gare'')]
   \<and> import_values ''stops'' ''ATM-'' example_record =
     Inr [(''stop_id'', PyStr ''ATM-12''), (''stop_name'', PyStr ''Gare'')]
   \<and> map_of [(''stop_id'', PyStr ''AST-12''), (''stop_name'', PyStr ''Gare'')] ''stop_id''
     \<noteq> map_of [(''stop_id'', PyStr ''ATM-12''), (''stop_name'', PyStr ''Gare'')] ''stop_id''"
proof -
  have t: "''AST-'' \<noteq> ''ATM-''" by simp
  have k: "''stop_id'' \<in> set FIELD_IDS" by (simp add: FIELD_IDS_def)
  have r: "map_of example_record ''stop_id'' = Some (PyStr ''12'')"
    by (simp add: example_record_def)
  have v1: "import_values ''stops'' ''AST-'' example_record =
     Inr [(''stop_id'', PyStr ''AST-12''), (''stop_name'', PyStr ''Gare'')]"
    and v2: "import_values ''stops'' ''ATM-'' example_record =
     Inr [(''stop_id'', PyStr ''ATM-12''), (''stop_name'', PyStr ''Gare'')]"
    by (simp_all add: example_record_def FIELD_IDS_def FIELD_DROPS_def prefix_id_def)
  from namespaced_ids_never_collide [OF t k r r v1 v2] v1 v2 show ?thesis by blast
qed

section \<open>The geographic filter\<close>



lemma nan_never_outside: "\<not> (float_less NaN (Finite lo) \<or> float_less (Finite hi) NaN)"
  by simp




section \<open>Coordinates of the cycling feed\<close>

lemma split_char_no_sep: "sep \<notin> set s \<Longrightarrow> split_char sep s = [s]"
  by (induction s) auto

lemma split_char_first:
  "sep \<notin> set x \<Longrightarrow> split_char sep (x @ sep # rest) = x # split_char sep rest"
  by (induction x) auto

lemma xy_components:
  assumes "CHR '','' \<notin> set x" "CHR '','' \<notin> set y"
  shows "split_char (CHR '','') (butlast (tl (''('' @ x @ '','' @ y @ '')''))) = [x, y]"
proof -
  have "butlast (tl (''('' @ x @ '','' @ y @ '')'')) = x @ CHR '','' # y"
    using butlast_snoc [of "x @ CHR '','' # y" "CHR '')''"] by simp
  then show ?thesis
    using assms by (simp add: split_char_first split_char_no_sep)
qed

text \<open>
  Claim C6, as stated, fails. The field \<open>coordonneesxy\<close> holds (x, y), the longitude and
  then the latitude; on \<open>(1.09,49.44)\<close> the latitude is parsed from the second component,
  \<open>49.44\<close>, and the longitude from the first, \<open>1.09\<close>: the latitude is not the parse of
  the first component.
\<close>

theorem cycle_latitude_first_counterexample:
  "derive_cycle_latitude example_float ''(1.09,49.44)'' = Inr (Finite 49.44)
   \<and> derive_cycle_longitude example_float ''(1.09,49.44)'' = Inr (Finite 1.09)
   \<and> example_float ''1.09'' = Inr (Finite 1.09)
   \<and> derive_cycle_latitude example_float ''(1.09,49.44)'' \<noteq> example_float ''1.09''"
  by (simp add: derive_cycle_latitude_def derive_cycle_longitude_def example_float_def)

text \<open>
  Claim C6, amended. With the outer parentheses removed and the field split on the comma,
  the latitude is parsed from the second component and the longitude from the first; the
  two parsed values, converted to radians, are what the cycle stop stores as \<open>cycle_lat\<close>
  and \<open>cycle_lon\<close>.
\<close>

theorem cycle_coordinates_components:
  assumes "CHR '','' \<notin> set x" and "CHR '','' \<notin> set y"
  shows "derive_cycle_latitude str_float (''('' @ x @ '','' @ y @ '')'') = str_float y
       \<and> derive_cycle_longitude str_float (''('' @ x @ '','' @ y @ '')'') = str_float x
       \<and> (getitem row ''coordonneesxy'' = Inr (PyStr (''('' @ x @ '','' @ y @ '')''))
            \<and> cycle_stop_of_row str_float row = Inr cycle_stop \<longrightarrow>
          (\<exists>lat lon. str_float y = Inr lat \<and> str_float x = Inr lon
             \<and> map_of cycle_stop ''cycle_lat'' = Some (PyFloat (float_radians lat))
             \<and> map_of cycle_stop ''cycle_lon'' = Some (PyFloat (float_radians lon))))"
proof -
  note c = xy_components [OF assms]
  have lat: "derive_cycle_latitude str_float (''('' @ x @ '','' @ y @ '')'') = str_float y"
    and lon: "derive_cycle_longitude str_float (''('' @ x @ '','' @ y @ '')'') = str_float x"
    unfolding derive_cycle_latitude_def derive_cycle_longitude_def c by simp_all
  have "\<exists>lat lon. str_float y = Inr lat \<and> str_float x = Inr lon
             \<and> map_of cycle_stop ''cycle_lat'' = Some (PyFloat (float_radians lat))
             \<and> map_of cycle_stop ''cycle_lon'' = Some (PyFloat (float_radians lon))"
    if "getitem row ''coordonneesxy'' = Inr (PyStr (''('' @ x @ '','' @ y @ '')''))"
      and "cycle_stop_of_row str_float row = Inr cycle_stop"
  proof -
    have lat': "derive_cycle_latitude str_float (CHR ''('' # x @ CHR '','' # y @ '')'') = str_float y"
      and lon': "derive_cycle_longitude str_float (CHR ''('' # x @ CHR '','' # y @ '')'') = str_float x"
      using lat lon by simp_all
    from that show ?thesis
      unfolding cycle_stop_of_row_def
      by (auto simp: lat' lon' str_of_def split: sum.splits)
  qed
  with lat lon show ?thesis by blast
qed

theorem cycle_coordinates_components_witness:
  "cycle_stop_of_row example_float cycle_row =
     Inr [(''cycle_id'', PyStr ''7''), (''cycle_name'', PyNone),
          (''cycle_lat'', PyFloat (Finite (radians 49.44))),
          (''cycle_lon'', PyFloat (Finite (radians 1.09))),
          (''cycle_type'', PyInt 0), (''cycle_free'', PyInt 1)]
   \<and> derive_cycle_latitude example_float (''('' @ ''1.09'' @ '','' @ ''49.44'' @ '')'')
       = Inr (Finite 49.44)
   \<and> derive_cycle_longitude example_float (''('' @ ''1.09'' @ '','' @ ''49.44'' @ '')'')
       = Inr (Finite 1.09)"
proof -
  have x: "CHR '','' \<notin> set ''1.09''" and y: "CHR '','' \<notin> set ''49.44''" by simp_all
  have f: "example_float ''49.44'' = Inr (Finite 49.44)" "example_float ''1.09'' = Inr (Finite 1.09)"
    by (simp_all add: example_float_def)
  have r: "cycle_stop_of_row example_float cycle_row =
     Inr [(''cycle_id'', PyStr ''7''), (''cycle_name'', PyNone),
          (''cycle_lat'', PyFloat (Finite (radians 49.44))),
          (''cycle_lon'', PyFloat (Finite (radians 1.09))),
          (''cycle_type'', PyInt 0), (''cycle_free'', PyInt 1)]"
    by (simp add: cycle_stop_of_row_def cycle_row_def getitem_def str_of_def
        derive_cycle_latitude_def derive_cycle_longitude_def example_float_def
        derive_cycle_type_def derive_cycle_free_def)
  from cycle_coordinates_components [OF x y, of example_float cycle_row] f r
  show ?thesis by simp
qed

section \<open>Normalizing names\<close>

lemma contains_Nil: "contains [] s"
  by (induction s) (simp_all add: startswith_def)

lemma replace_absent: "\<not> contains old s \<Longrightarrow> replace s old new = s"
proof -
  assume a: "\<not> contains old s"
  then have "old \<noteq> []" using contains_Nil by blast
  moreover from a have "replace_from old new s = s"
    by (induction s) auto
  ultimately show ?thesis by (simp add: replace_def)
qed

lemma apply_corrections_fixed:
  assumes "\<forall>c \<in> set corrections. \<exists>bad good. c = [bad, good] \<and> \<not> contains bad name"
  shows "apply_corrections corrections name = Inr name"
  using assms by (induction corrections) (auto simp: replace_absent)

lemma apply_corrections_wellformed:
  "apply_corrections corrections name = Inr y \<Longrightarrow> c \<in> set corrections \<Longrightarrow> \<exists>bad good. c = [bad, good]"
proof (induction corrections arbitrary: name)
  case Nil
  then show ?case by simp
next
  case (Cons a corrections)
  then show ?case
    by (auto split: list.splits)
qed

text \<open>
  Claim C8, as stated, fails: with the single correction \<open>Mrn\<close> to
  \<open>Metropole de Rouen\<close>, the name \<open>mrn\<close> is normalized to \<open>Metropole de Rouen\<close>, and
  normalizing that name gives \<open>Metropole De Rouen\<close>, since the second pass puts the
  replacement text in title case.
\<close>

theorem normalize_name_idempotence_counterexample:
  "normalize_name [[''Mrn'', ''Metropole de Rouen'']] ''mrn'' = Inr ''Metropole de Rouen''
   \<and> normalize_name [[''Mrn'', ''Metropole de Rouen'']] ''Metropole de Rouen'' = Inr ''Metropole De Rouen''"
  by (simp add: normalize_name_def title_def replace_def startswith_def char_case_defs)

text \<open>
  Claim C8, amended. A normalized name that title-casing leaves unchanged and that holds
  no bad substring of the correction list is returned unchanged by \<open>normalize_name\<close>.
\<close>

theorem normalize_name_fixed_point:
  assumes "normalize_name CORRECTIONS name = Inr y"
    and "title y = y"
    and "\<forall>bad good. [bad, good] \<in> set CORRECTIONS \<longrightarrow> \<not> contains bad y"
  shows "normalize_name CORRECTIONS y = Inr y"
proof -
  have "\<forall>c \<in> set CORRECTIONS. \<exists>bad good. c = [bad, good] \<and> \<not> contains bad y"
    using assms(1,3) apply_corrections_wellformed unfolding normalize_name_def by blast
  then show ?thesis
    unfolding normalize_name_def assms(2) by (rule apply_corrections_fixed)
qed

theorem normalize_name_fixed_point_witness:
  "normalize_name [[''Chu'', ''Hopital'']] ''chu'' = Inr ''Hopital''
   \<and> title ''Hopital'' = ''Hopital''
   \<and> \<not> contains ''Chu'' ''Hopital''
   \<and> normalize_name [[''Chu'', ''Hopital'']] ''Hopital'' = Inr ''Hopital''"
proof -
  have n: "normalize_name [[''Chu'', ''Hopital'']] ''chu'' = Inr ''Hopital''"
    by (simp add: normalize_name_def title_def replace_def startswith_def char_case_defs)
  have t: "title ''Hopital'' = ''Hopital''"
    by (simp add: title_def char_case_defs)
  have c: "\<not> contains ''Chu'' ''Hopital''"
    by (simp add: startswith_def)
  then have a: "\<forall>bad good. [bad, good] \<in> set [[''Chu'', ''Hopital'']] \<longrightarrow> \<not> contains bad ''Hopital''"
    by simp
  from normalize_name_fixed_point [OF n t a] n t c show ?thesis by blast
qed

section \<open>Deduplication of routes in the query result\<close>

lemma result_pairs_simps [simp]:
  "result_pairs [] = []"
  "result_pairs ((k, g) # groups) =
     map (\<lambda>p. (point_name p, point_school p)) (points g) @ result_pairs groups"
  "result_pairs (groups @ others) = result_pairs groups @ result_pairs others"
  by (simp_all add: result_pairs_def)

lemma update_group_map_fst [simp]: "map fst (update_group key f groups) = map fst groups"
  by (induction groups) auto

lemma update_group_keys [simp]: "fst ` set (update_group key f groups) = fst ` set groups"
  using update_group_map_fst [of key f groups] by (metis set_map)

lemma update_group_same_points:
  "(\<And>g. points (f g) = points g) \<Longrightarrow> result_pairs (update_group key f groups) = result_pairs groups"
  by (induction groups) auto

lemma update_group_add_point':
  "key \<in> set (map fst groups) \<Longrightarrow>
   mset (result_pairs (update_group key (\<lambda>g. g\<lparr>points := points g @ [p]\<rparr>) groups)) =
     add_mset (point_name p, point_school p) (mset (result_pairs groups))"
proof (induction groups)
  case Nil
  then show ?case by simp
next
  case (Cons kg groups)
  obtain k g where kg: "kg = (k, g)" by (cases kg)
  show ?case
  proof (cases "k = key")
    case True
    then show ?thesis by (simp add: kg)
  next
    case False
    with Cons.prems kg have "key \<in> set (map fst groups)" by simp
    from Cons.IH [OF this] False show ?thesis by (simp add: kg)
  qed
qed

lemma update_group_add_point:
  "key \<in> fst ` set groups \<Longrightarrow>
   mset (result_pairs (update_group key (\<lambda>g. g\<lparr>points := points g @ [p]\<rparr>) groups)) =
     add_mset (point_name p, point_school p) (mset (result_pairs groups))"
  using update_group_add_point' [of key groups p] by simp

lemma station_step_skipped:
  "skipped used row \<Longrightarrow> station_step (groups, used) row = (groups, used)"
  by (auto simp: station_step_def skipped_def row_key_def Let_def)

lemma station_step_recorded:
  assumes "\<not> skipped used row"
  shows "snd (station_step (groups, used) row) = row_key row # used"
    and "mset (result_pairs (fst (station_step (groups, used) row))) =
           add_mset (row_key row) (mset (result_pairs groups))"
proof -
  show "snd (station_step (groups, used) row) = row_key row # used"
    using assms by (auto simp: station_step_def skipped_def row_key_def Let_def)
  let ?name = "row_stop_name row"
  let ?d = "py_int (row_distance row)"
  let ?g1 = "if ?name \<notin> fst ` set groups
             then groups @ [(?name, \<lparr>points = [], distance_min = ?d, distance_max = ?d\<rparr>)]
             else groups"
  have in1: "?name \<in> fst ` set ?g1" by auto
  have p1: "result_pairs ?g1 = result_pairs groups" by simp
  let ?g2 = "update_group ?name (\<lambda>g. g\<lparr>distance_min := min (distance_min g) ?d\<rparr>) ?g1"
  let ?g3 = "update_group ?name (\<lambda>g. g\<lparr>distance_max := max (distance_max g) ?d\<rparr>) ?g2"
  have in3: "?name \<in> fst ` set ?g3" using in1 by (simp del: if_image_distrib)
  have p3: "result_pairs ?g3 = result_pairs groups"
    using p1 by (simp add: update_group_same_points)
  let ?p = "\<lparr>point_name = row_route_short_name row, point_long_name = row_route_long_name row,
             point_school = (row_school row \<noteq> 0),
             point_type = (if startswith (row_id row) ''ATM-'' then ''atoumod'' else ''astuce'')\<rparr>"
  have "fst (station_step (groups, used) row) =
          update_group ?name (\<lambda>g. g\<lparr>points := points g @ [?p]\<rparr>) ?g3"
    using assms by (auto simp: station_step_def skipped_def row_key_def Let_def)
  then show "mset (result_pairs (fst (station_step (groups, used) row))) =
           add_mset (row_key row) (mset (result_pairs groups))"
    using update_group_add_point [OF in3, of ?p] p3 by (simp add: row_key_def)
qed

lemma state_ok_step:
  assumes "state_ok seen state"
  shows "state_ok (seen @ [row]) (station_step state row)"
proof (cases "skipped (snd state) row")
  case True
  then have "station_step state row = state"
    using station_step_skipped [of "snd state" row "fst state"] by simp
  with assms True show ?thesis by (auto simp: state_ok_def)
next
  case False
  note rec = station_step_recorded [OF False, of "fst state"]
  have k: "row_key row \<notin> set (snd state)" using False by (simp add: skipped_def)
  have mono: "skipped (snd state) r \<or> row_key r \<in> set (snd state) \<Longrightarrow>
        skipped (row_key row # snd state) r \<or> row_key r \<in> set (row_key row # snd state)" for r
    by (auto simp: skipped_def)
  show ?thesis
    unfolding state_ok_def using assms k rec mono
    by (auto simp: state_ok_def)
qed

lemma state_ok_foldl:
  "state_ok seen state \<Longrightarrow> state_ok (seen @ rows) (foldl station_step state rows)"
proof (induction rows arbitrary: seen state)
  case Nil
  then show ?case by simp
next
  case (Cons row rows)
  from Cons.IH [OF state_ok_step [OF Cons.prems, of row]] show ?case by simp
qed

lemma state_ok_final: "state_ok rows (foldl station_step ([], []) rows)"
  using state_ok_foldl [of "[]" "([], [])" rows] by (simp add: state_ok_def)

lemma two_stops_eval:
  "prepare_stations two_stops_rows =
     [(''Alpha'', \<lparr>points = [\<lparr>point_name = ''T1'', point_long_name = ''Ligne 1'',
                               point_school = False, point_type = ''astuce''\<rparr>],
                   distance_min = 10, distance_max = 10\<rparr>),
      (''Beta'', \<lparr>points = [\<lparr>point_name = ''T2'', point_long_name = ''Ligne 2'',
                              point_school = False, point_type = ''astuce''\<rparr>],
                  distance_min = 25, distance_max = 25\<rparr>)]"
  by (simp add: prepare_stations_def two_stops_rows_def station_step_def py_int_def
      startswith_def Let_def)

lemma station_step_unfold:
  "station_step (groups, used) row =
     (if skipped used row then (groups, used)
      else (record_row groups row, row_key row # used))"
  by (auto simp: station_step_def skipped_def row_key_def record_row_def point_of_row_def Let_def)

lemma used_ok_skipped:
  assumes "used_ok seen used"
  shows "skipped used row \<longleftrightarrow>
     \<not> (\<forall>p \<in> set seen. row_route_short_name p = row_route_short_name row
            \<longrightarrow> row_school p \<noteq> 0 \<and> row_school row = 0)"
proof (cases "row_school row = 0")
  case True
  then have "skipped used row \<longleftrightarrow> (row_route_short_name row, False) \<in> set used"
    by (simp add: skipped_def row_key_def)
  also have "\<dots> \<longleftrightarrow> (\<exists>p \<in> set seen. row_key p = (row_route_short_name row, False))"
    using assms by (simp add: used_ok_def)
  finally show ?thesis using True by (auto simp: row_key_def)
next
  case False
  then have s: "skipped used row \<longleftrightarrow> (row_route_short_name row, True) \<in> set used
      \<or> (row_route_short_name row, False) \<in> set used"
    by (auto simp: skipped_def row_key_def)
  have "(row_route_short_name row, True) \<in> set used \<or> (row_route_short_name row, False) \<in> set used
     \<longleftrightarrow> (\<exists>p \<in> set seen. row_route_short_name p = row_route_short_name row)"
  proof
    assume "(row_route_short_name row, True) \<in> set used \<or> (row_route_short_name row, False) \<in> set used"
    then obtain b p where "p \<in> set seen" "row_key p = (row_route_short_name row, b)"
      using assms unfolding used_ok_def by blast
    then show "\<exists>p \<in> set seen. row_route_short_name p = row_route_short_name row"
      by (auto simp: row_key_def)
  next
    assume "\<exists>p \<in> set seen. row_route_short_name p = row_route_short_name row"
    then show "(row_route_short_name row, True) \<in> set used \<or> (row_route_short_name row, False) \<in> set used"
      using assms unfolding used_ok_def by metis
  qed
  with s False show ?thesis by auto
qed

lemma used_ok_step:
  assumes "used_ok seen used"
  shows "used_ok (seen @ [row]) (snd (station_step (groups, used) row))"
proof (cases "skipped used row")
  case True
  then have in_used: "(row_route_short_name row, False) \<in> set used \<or> row_key row \<in> set used"
    by (auto simp: skipped_def)
  have "row_key row = (n, False) \<Longrightarrow> (n, False) \<in> set used" for n
    using True by (auto simp: skipped_def row_key_def)
  moreover have "(row_route_short_name row, False) \<in> set used
      \<or> (row_route_short_name row, True) \<in> set used"
    using in_used by (cases "row_school row = 0") (auto simp: row_key_def)
  ultimately show ?thesis
    using assms True unfolding used_ok_def station_step_unfold
    by (auto simp: row_key_def)
next
  case False
  have k: "row_key row = (row_route_short_name row, row_school row \<noteq> 0)"
    by (simp add: row_key_def)
  show ?thesis
    using assms False unfolding used_ok_def station_step_unfold
    by (cases "row_school row = 0") (auto simp: row_key_def)
qed

lemma prepare_stations_foldl:
  "used_ok seen used \<Longrightarrow>
   fst (foldl station_step (groups, used) rows) = foldl record_row groups (recorded_from seen rows)"
proof (induction rows arbitrary: seen groups used)
  case Nil
  then show ?case by simp
next
  case (Cons row rows)
  let ?st = "station_step (groups, used) row"
  have ok: "used_ok (seen @ [row]) (snd ?st)" using Cons.prems by (rule used_ok_step)
  have "fst (foldl station_step (groups, used) (row # rows))
      = fst (foldl station_step (fst ?st, snd ?st) rows)" by simp
  also have "\<dots> = foldl record_row (fst ?st) (recorded_from (seen @ [row]) rows)"
    using ok by (rule Cons.IH)
  finally have step: "fst (foldl station_step (groups, used) (row # rows))
      = foldl record_row (fst ?st) (recorded_from (seen @ [row]) rows)" .
  show ?case
  proof (cases "skipped used row")
    case True
    then have "\<not> (\<forall>p \<in> set seen. row_route_short_name p = row_route_short_name row
            \<longrightarrow> row_school p \<noteq> 0 \<and> row_school row = 0)"
      using used_ok_skipped [OF Cons.prems, of row] by simp
    then have "recorded_from seen (row # rows) = recorded_from (seen @ [row]) rows"
      unfolding recorded_from.simps by (subst if_not_P) simp_all
    moreover have "fst ?st = groups" using True by (simp add: station_step_unfold)
    ultimately show ?thesis using step by simp
  next
    case False
    then have "\<forall>p \<in> set seen. row_route_short_name p = row_route_short_name row
            \<longrightarrow> row_school p \<noteq> 0 \<and> row_school row = 0"
      using used_ok_skipped [OF Cons.prems, of row] by simp
    then have "recorded_from seen (row # rows) = row # recorded_from (seen @ [row]) rows"
      unfolding recorded_from.simps by (subst if_P) simp_all
    moreover have "fst ?st = record_row groups row" using False by (simp add: station_step_unfold)
    ultimately show ?thesis using step by simp
  qed
qed

lemma recorded_from_index:
  "recorded_from seen rows =
     map (\<lambda>i. (seen @ rows) ! i)
       (filter (kept_row (seen @ rows)) [length seen..<length seen + length rows])"
proof (induction rows arbitrary: seen)
  case Nil
  then show ?case by simp
next
  case (Cons row rows)
  have up: "[length seen..<length seen + length (row # rows)] =
      length seen # [length (seen @ [row])..<length (seen @ [row]) + length rows]"
    by (simp add: upt_conv_Cons del: upt_Suc)
  have k: "kept_row (seen @ row # rows) (length seen) \<longleftrightarrow>
      (\<forall>p \<in> set seen. row_route_short_name p = row_route_short_name row
            \<longrightarrow> row_school p \<noteq> 0 \<and> row_school row = 0)"
    by (simp add: kept_row_def)
  have e: "(seen @ [row]) @ rows = seen @ row # rows" by simp
  show ?case
    unfolding recorded_from.simps Cons.IH [of "seen @ [row]"] up e
    by (simp add: k)
qed

lemma recorded_rows_from: "recorded_rows rows = recorded_from [] rows"
  by (simp add: recorded_from_index recorded_rows_def)

lemma prepare_stations_recorded:
  "prepare_stations rows = foldl record_row [] (recorded_rows rows)"
  unfolding prepare_stations_def recorded_rows_from
  by (rule prepare_stations_foldl) (simp add: used_ok_def)

lemma map_of_update_group:
  "map_of (update_group key f groups) =
     (\<lambda>x. if x = key then map_option f (map_of groups key) else map_of groups x)"
  by (induction groups) (auto simp: fun_eq_iff)

lemma map_fst_record_row:
  "map fst (record_row groups row) =
     (if row_stop_name row \<in> set (map fst groups) then map fst groups
      else map fst groups @ [row_stop_name row])"
  by (simp add: record_row_def Let_def)

lemma map_of_record_row:
  "map_of (record_row groups row) =
     (map_of groups)(row_stop_name row \<mapsto>
        (let d = py_int (row_distance row);
             g = (case map_of groups (row_stop_name row) of Some g \<Rightarrow> g
                  | None \<Rightarrow> \<lparr>points = [], distance_min = d, distance_max = d\<rparr>)
         in \<lparr>points = points g @ [point_of_row row],
             distance_min = min (distance_min g) d, distance_max = max (distance_max g) d\<rparr>))"
proof (cases "row_stop_name row \<in> fst ` set groups")
  case True
  then obtain g where "map_of groups (row_stop_name row) = Some g"
    by (metis map_of_eq_None_iff not_Some_eq)
  with True show ?thesis
    by (auto simp: record_row_def Let_def map_of_update_group fun_eq_iff)
next
  case False
  then have "map_of groups (row_stop_name row) = None"
    by (simp add: map_of_eq_None_iff)
  with False show ?thesis
    by (auto simp: record_row_def Let_def map_of_update_group fun_eq_iff map_add_def
        split: option.splits)
qed

lemma stop_names_of_snoc:
  "stop_names_of (rows @ [row]) =
     (if row_stop_name row \<in> set (stop_names_of rows) then stop_names_of rows
      else stop_names_of rows @ [row_stop_name row])"
  by (simp add: stop_names_of_def)

lemma set_stop_names_of [simp]: "set (stop_names_of rows) = row_stop_name ` set rows"
  by (simp add: stop_names_of_def)

lemma distinct_stop_names_of [simp]: "distinct (stop_names_of rows)"
  by (simp add: stop_names_of_def)

lemma group_of_other:
  "name \<noteq> row_stop_name row \<Longrightarrow> group_of (rows @ [row]) name = group_of rows name"
  by (simp add: group_of_def)

lemma group_of_first:
  "row_stop_name row \<notin> row_stop_name ` set rows \<Longrightarrow>
   group_of (rows @ [row]) (row_stop_name row) =
     \<lparr>points = [point_of_row row], distance_min = py_int (row_distance row),
      distance_max = py_int (row_distance row)\<rparr>"
proof -
  assume "row_stop_name row \<notin> row_stop_name ` set rows"
  then have "filter (\<lambda>r. row_stop_name r = row_stop_name row) rows = []"
    by (auto simp: filter_empty_conv image_iff)
  then show ?thesis by (simp add: group_of_def)
qed

lemma group_of_next:
  assumes "row_stop_name row \<in> row_stop_name ` set rows"
  shows "group_of (rows @ [row]) (row_stop_name row) =
     \<lparr>points = points (group_of rows (row_stop_name row)) @ [point_of_row row],
      distance_min = min (distance_min (group_of rows (row_stop_name row)))
                         (py_int (row_distance row)),
      distance_max = max (distance_max (group_of rows (row_stop_name row)))
                         (py_int (row_distance row))\<rparr>"
proof -
  let ?mine = "filter (\<lambda>r. row_stop_name r = row_stop_name row) rows"
  let ?ds = "set (map (\<lambda>r. py_int (row_distance r)) ?mine)"
  from assms obtain x where "x \<in> set rows" "row_stop_name x = row_stop_name row"
    by (auto simp: image_iff)
  then have "x \<in> set ?mine" by simp
  then have mem: "py_int (row_distance x) \<in> ?ds" by (simp only: set_map) (rule imageI)
  have ne: "?ds \<noteq> {}"
  proof
    assume "?ds = {}"
    with mem show False by (simp only: empty_iff)
  qed
  have fin: "finite ?ds" by simp
  have "Min (insert (py_int (row_distance row)) ?ds) = min (Min ?ds) (py_int (row_distance row))"
    using Min_insert [OF fin ne] by (simp add: min.commute)
  moreover
  have "Max (insert (py_int (row_distance row)) ?ds) = max (Max ?ds) (py_int (row_distance row))"
    using Max_insert [OF fin ne] by (simp add: max.commute)
  ultimately show ?thesis by (simp add: group_of_def Let_def)
qed

lemma groups_ok_step:
  assumes "groups_ok groups rows"
  shows "groups_ok (record_row groups row) (rows @ [row])"
proof -
  let ?name = "row_stop_name row"
  from assms have keys: "map fst groups = stop_names_of rows"
    and grp: "\<And>name g. map_of groups name = Some g \<Longrightarrow> g = group_of rows name"
    by (auto simp: groups_ok_def)
  have k: "map fst (record_row groups row) = stop_names_of (rows @ [row])"
    by (simp add: map_fst_record_row stop_names_of_snoc keys)
  have g: "g = group_of (rows @ [row]) name"
    if "map_of (record_row groups row) name = Some g" for name g
  proof (cases "name = ?name")
    case False
    with that have "map_of groups name = Some g" by (simp add: map_of_record_row)
    then show ?thesis using grp False by (simp add: group_of_other)
  next
    case True
    show ?thesis
    proof (cases "map_of groups ?name")
      case None
      then have "?name \<notin> set (map fst groups)" by (simp add: map_of_eq_None_iff)
      then have "?name \<notin> row_stop_name ` set rows" by (simp add: keys)
      from group_of_first [OF this] that True None show ?thesis
        by (simp add: map_of_record_row Let_def)
    next
      case (Some g0)
      then have "?name \<in> set (map fst groups)"
        by (metis map_of_eq_None_iff option.distinct(1) set_map)
      then have "?name \<in> row_stop_name ` set rows" by (simp add: keys)
      from group_of_next [OF this] that True Some grp [OF Some] show ?thesis
        by (simp add: map_of_record_row Let_def)
    qed
  qed
  show ?thesis unfolding groups_ok_def using k g by blast
qed

lemma groups_ok_foldl:
  "groups_ok groups seen \<Longrightarrow> groups_ok (foldl record_row groups rows) (seen @ rows)"
proof (induction rows arbitrary: groups seen)
  case Nil
  then show ?case by simp
next
  case (Cons row rows)
  from Cons.IH [OF groups_ok_step [OF Cons.prems, of row]] show ?case by simp
qed

lemma groups_ok_result: "groups_ok (prepare_stations rows) (recorded_rows rows)"
  using groups_ok_foldl [of "[]" "[]" "recorded_rows rows"]
  by (simp add: prepare_stations_recorded groups_ok_def stop_names_of_def)

lemma distinct_keys_rebuild:
  "distinct (map fst groups) \<Longrightarrow>
   map (\<lambda>k. (k, the (map_of groups k))) (map fst groups) = groups"
proof (induction groups)
  case Nil
  then show ?case by simp
next
  case (Cons kg groups)
  obtain k g where kg: "kg = (k, g)" by (cases kg)
  from Cons.prems kg have nk: "k \<notin> fst ` set groups" and d: "distinct (map fst groups)"
    by auto
  have "map (\<lambda>x. (x, the (map_of ((k, g) # groups) x))) (map fst groups)
      = map (\<lambda>x. (x, the (map_of groups x))) (map fst groups)"
    using nk by (intro map_cong) auto
  with Cons.IH [OF d] show ?case by (simp add: kg)
qed

lemma prepare_stations_groups:
  "prepare_stations rows =
     map (\<lambda>name. (name, group_of (recorded_rows rows) name)) (stop_names_of (recorded_rows rows))"
proof -
  let ?G = "prepare_stations rows" and ?R = "recorded_rows rows"
  have ok: "groups_ok ?G ?R" by (rule groups_ok_result)
  then have keys: "map fst ?G = stop_names_of ?R" by (simp add: groups_ok_def)
  then have d: "distinct (map fst ?G)" by simp
  have "the (map_of ?G k) = group_of ?R k" if "k \<in> set (map fst ?G)" for k
  proof -
    from that obtain g where "map_of ?G k = Some g"
      by (metis map_of_eq_None_iff not_Some_eq set_map)
    with ok show ?thesis by (simp add: groups_ok_def)
  qed
  then have "map (\<lambda>k. (k, the (map_of ?G k))) (map fst ?G)
      = map (\<lambda>k. (k, group_of ?R k)) (map fst ?G)"
    by (intro map_cong) auto
  with distinct_keys_rebuild [OF d] keys show ?thesis by simp
qed

text \<open>
  Claim C2, as stated, fails. The rows of the stops Alpha and Beta both carry the line T1
  as regular service; the group of Alpha receives the entry, the group of Beta does not
  (its only entry is T2): the second row is skipped although its stop is another one.
\<close>

theorem dedup_across_groups_counterexample:
  "row_stop_name (two_stops_rows ! 0) = ''Alpha''
   \<and> row_stop_name (two_stops_rows ! 1) = ''Beta''
   \<and> row_key (two_stops_rows ! 0) = (''T1'', False)
   \<and> row_key (two_stops_rows ! 1) = (''T1'', False)
   \<and> map (\<lambda>(k, g). (k, map point_name (points g))) (prepare_stations two_stops_rows) =
       [(''Alpha'', [''T1'']), (''Beta'', [''T2''])]"
  by (simp add: two_stops_eval) (simp add: two_stops_rows_def row_key_def)

text \<open>
  Claim C2, amended. The dedup by (routeShortName, isSchoolService) runs over the whole
  result, not within a name-group. A candidate row is recorded exactly when every row
  before it with the same short name, at whichever stop, is a school row and the row
  itself is regular service: a pair is recorded once, at its first row, and a school row
  is skipped once its short name has a regular entry. The result is the recorded rows
  grouped by their own stop name: the groups in order of first appearance, each with the
  entries of its recorded rows in order and their least and greatest distance. So over all
  the groups together each pair is recorded once at most; every candidate row has its pair
  in the result, or is a school row whose short name has a regular entry in the result;
  and every recorded pair is the pair of a candidate row.
\<close>

theorem dedup_over_whole_result:
  "prepare_stations rows =
     map (\<lambda>name. (name, group_of (recorded_rows rows) name))
       (stop_names_of (recorded_rows rows))
   \<and> distinct (result_pairs (prepare_stations rows))
   \<and> (\<forall>row \<in> set rows.
        row_key row \<in> set (result_pairs (prepare_stations rows))
        \<or> (row_school row \<noteq> 0
            \<and> (row_route_short_name row, False) \<in> set (result_pairs (prepare_stations rows))))
   \<and> (\<forall>pair \<in> set (result_pairs (prepare_stations rows)). \<exists>row \<in> set rows. row_key row = pair)"
proof -
  let ?state = "foldl station_step ([], []) rows"
  have ok: "state_ok rows ?state" by (rule state_ok_final)
  then have m: "mset (result_pairs (fst ?state)) = mset (snd ?state)"
    by (simp add: state_ok_def)
  then have eq: "set (result_pairs (prepare_stations rows)) = set (snd ?state)"
    unfolding prepare_stations_def by (rule mset_eq_setD)
  have d: "distinct (result_pairs (prepare_stations rows))"
    using ok m unfolding prepare_stations_def state_ok_def
    by (metis mset_eq_imp_distinct_iff)
  have b: "\<forall>row \<in> set rows. skipped (snd ?state) row \<or> row_key row \<in> set (snd ?state)"
    using ok by (simp add: state_ok_def)
  have c: "set (snd ?state) \<subseteq> row_key ` set rows"
    using ok by (simp add: state_ok_def)
  have b': "\<forall>row \<in> set rows.
        row_key row \<in> set (result_pairs (prepare_stations rows))
        \<or> (row_school row \<noteq> 0
            \<and> (row_route_short_name row, False) \<in> set (result_pairs (prepare_stations rows)))"
    unfolding eq using b unfolding skipped_def by blast
  have c': "\<forall>pair \<in> set (result_pairs (prepare_stations rows)). \<exists>row \<in> set rows. row_key row = pair"
    unfolding eq using c by blast
  have g: "prepare_stations rows =
     map (\<lambda>name. (name, group_of (recorded_rows rows) name))
       (stop_names_of (recorded_rows rows))"
    by (rule prepare_stations_groups)
  show ?thesis by (rule conjI [OF g conjI [OF d conjI [OF b' c']]])
qed

theorem dedup_over_whole_result_witness:
  "recorded_rows two_stops_rows = [two_stops_rows ! 0, two_stops_rows ! 3]
   \<and> prepare_stations two_stops_rows =
       [(''Alpha'', \<lparr>points = [\<lparr>point_name = ''T1'', point_long_name = ''Ligne 1'',
                                 point_school = False, point_type = ''astuce''\<rparr>],
                     distance_min = 10, distance_max = 10\<rparr>),
        (''Beta'', \<lparr>points = [\<lparr>point_name = ''T2'', point_long_name = ''Ligne 2'',
                                point_school = False, point_type = ''astuce''\<rparr>],
                    distance_min = 25, distance_max = 25\<rparr>)]
   \<and> result_pairs (prepare_stations two_stops_rows) = [(''T1'', False), (''T2'', False)]
   \<and> distinct (result_pairs (prepare_stations two_stops_rows))
   \<and> map row_key two_stops_rows = [(''T1'', False), (''T1'', False), (''T1'', True), (''T2'', False)]"
proof -
  have r: "recorded_rows two_stops_rows = [two_stops_rows ! 0, two_stops_rows ! 3]"
    by (simp add: recorded_rows_from two_stops_rows_def)
  note all = dedup_over_whole_result [of two_stops_rows]
  from all have "prepare_stations two_stops_rows =
     map (\<lambda>name. (name, group_of (recorded_rows two_stops_rows) name))
       (stop_names_of (recorded_rows two_stops_rows))"
    by (rule conjunct1)
  then have p: "prepare_stations two_stops_rows =
       [(''Alpha'', \<lparr>points = [\<lparr>point_name = ''T1'', point_long_name = ''Ligne 1'',
                                 point_school = False, point_type = ''astuce''\<rparr>],
                     distance_min = 10, distance_max = 10\<rparr>),
        (''Beta'', \<lparr>points = [\<lparr>point_name = ''T2'', point_long_name = ''Ligne 2'',
                                point_school = False, point_type = ''astuce''\<rparr>],
                    distance_min = 25, distance_max = 25\<rparr>)]"
    unfolding r
    by (simp add: stop_names_of_def group_of_def point_of_row_def two_stops_rows_def
        py_int_def startswith_def)
  from all have d: "distinct (result_pairs (prepare_stations two_stops_rows))"
    by (rule conjunct1 [OF conjunct2])
  have k: "map row_key two_stops_rows =
      [(''T1'', False), (''T1'', False), (''T1'', True), (''T2'', False)]"
    by (simp add: two_stops_rows_def row_key_def)
  have q: "result_pairs (prepare_stations two_stops_rows) = [(''T1'', False), (''T2'', False)]"
    unfolding p by simp
  show ?thesis by (rule conjI [OF r conjI [OF p conjI [OF q conjI [OF d k]]]])
qed

section \<open>The compass direction\<close>

lemma sin_angle_bounds: "0 < sin (radians (45 / 2))" "sin (radians (45 / 2)) \<le> 1 / 2"
proof -
  have r: "radians (45 / 2) = pi / 8" by (simp add: radians_def)
  have "0 < pi / 8" "pi / 8 < pi" by simp_all
  then show "0 < sin (radians (45 / 2))" unfolding r by (rule sin_gt_zero)
  have "sin (pi / 8) \<le> sin (pi / 6)"
    by (rule sin_monotone_2pi_le) simp_all
  then show "sin (radians (45 / 2)) \<le> 1 / 2" unfolding r by (simp add: sin_30)
qed

lemma cos_ge_half_sqrt2:
  assumes "0 \<le> x" "x \<le> pi / 4"
  shows "sqrt 2 / 2 \<le> cos x"
proof -
  have "cos (pi / 4) \<le> cos x"
    using assms by (intro cos_monotone_0_pi_le) simp_all
  then show ?thesis by (simp add: cos_45)
qed

lemma sin_quarter_bound:
  assumes "0 < A" "A \<le> pi / 2"
  shows "2 * sin (A / 4) \<le> sin A"
proof -
  have s4: "0 \<le> sin (A / 4)"
    using assms by (intro sin_ge_zero) simp_all
  have "0 \<le> A / 2" "A / 2 \<le> pi / 4" using assms by simp_all
  then have c2: "sqrt 2 / 2 \<le> cos (A / 2)" by (rule cos_ge_half_sqrt2)
  have "0 \<le> A / 4" "A / 4 \<le> pi / 4" using assms by simp_all
  then have c4: "sqrt 2 / 2 \<le> cos (A / 4)" by (rule cos_ge_half_sqrt2)
  have "sin A = 2 * sin (A / 2) * cos (A / 2)"
    using sin_double [of "A / 2"] by simp
  also have "sin (A / 2) = 2 * sin (A / 4) * cos (A / 4)"
    using sin_double [of "A / 4"] by simp
  finally have eq: "sin A = 4 * sin (A / 4) * (cos (A / 4) * cos (A / 2))" by simp
  have "0 \<le> sqrt 2 / 2" by simp
  then have "0 \<le> cos (A / 4)" using c4 by (rule order_trans)
  then have "(sqrt 2 / 2) * (sqrt 2 / 2) \<le> cos (A / 4) * cos (A / 2)"
    using c2 c4 by (intro mult_mono) simp_all
  then have "1 / 2 \<le> cos (A / 4) * cos (A / 2)" by simp
  then have "4 * sin (A / 4) * (1 / 2) \<le> 4 * sin (A / 4) * (cos (A / 4) * cos (A / 2))"
    using s4 by (intro mult_left_mono) simp_all
  then show ?thesis unfolding eq by simp
qed

lemma sin_sq_mono:
  assumes "\<bar>x\<bar> \<le> y" "y \<le> pi / 2"
  shows "(sin x)\<^sup>2 \<le> (sin y)\<^sup>2"
proof -
  have "sin \<bar>x\<bar> \<le> sin y"
    using assms by (intro sin_monotone_2pi_le) (simp_all add: order_trans [of _ 0])
  moreover have "0 \<le> sin \<bar>x\<bar>"
    using assms by (intro sin_ge_zero) (auto intro: order_trans)
  moreover have "(sin x)\<^sup>2 = (sin \<bar>x\<bar>)\<^sup>2"
    by (cases "0 \<le> x") (simp_all add: abs_if)
  ultimately show ?thesis by (simp add: power_mono)
qed

lemma abs_le_abs_arcsin:
  assumes "\<bar>x\<bar> \<le> 1"
  shows "\<bar>x\<bar> \<le> \<bar>arcsin x\<bar>"
proof -
  have "\<bar>sin (arcsin x)\<bar> \<le> \<bar>arcsin x\<bar>" by (rule abs_sin_x_le_abs_x)
  moreover have "sin (arcsin x) = x" using assms by (intro sin_arcsin) auto
  ultimately show ?thesis by simp
qed

text \<open>The key fact: no point at a positive angular distance has both offsets small.\<close>

lemma offsets_not_both_small:
  assumes A: "0 < A" "A = arcsin (sqrt h)" and h: "0 \<le> h" "sqrt h \<le> 1"
    and hle: "h \<le> (sin (a / 2))\<^sup>2 + (sin (b / 2))\<^sup>2"
    and a: "\<bar>a\<bar> \<le> 1" "\<bar>arcsin a\<bar> \<le> s * A"
    and b: "\<bar>b\<bar> \<le> 1" "\<bar>arcsin b\<bar> \<le> s * A"
    and s: "0 < s" "s \<le> 1 / 2"
  shows False
proof -
  have Aub: "A \<le> pi / 2" unfolding A(2) using h by (intro arcsin_ubound) (auto intro: order_trans [of _ 0])
  have sinA: "sin A = sqrt h" unfolding A(2) using h by (intro sin_arcsin) (auto intro: order_trans [of _ 0])
  then have sin2: "(sin A)\<^sup>2 = h" using h by simp
  have "s * A \<le> (1 / 2) * A" using s A(1) by (intro mult_right_mono) simp_all
  then have sA: "s * A \<le> A / 2" by simp
  have "\<bar>a\<bar> \<le> A / 2" using abs_le_abs_arcsin [OF a(1)] a(2) sA by linarith
  then have a4: "\<bar>a / 2\<bar> \<le> A / 4" by simp
  have "\<bar>b\<bar> \<le> A / 2" using abs_le_abs_arcsin [OF b(1)] b(2) sA by linarith
  then have b4: "\<bar>b / 2\<bar> \<le> A / 4" by simp
  have q: "A / 4 \<le> pi / 2" using Aub A(1) by simp
  have "(sin (a / 2))\<^sup>2 \<le> (sin (A / 4))\<^sup>2" using a4 q by (rule sin_sq_mono)
  moreover have "(sin (b / 2))\<^sup>2 \<le> (sin (A / 4))\<^sup>2" using b4 q by (rule sin_sq_mono)
  ultimately have up: "(sin A)\<^sup>2 \<le> 2 * (sin (A / 4))\<^sup>2" using hle sin2 by linarith
  have pos: "0 < sin (A / 4)" using A(1) Aub by (intro sin_gt_zero) simp_all
  have "2 * sin (A / 4) \<le> sin A" using A(1) Aub by (rule sin_quarter_bound)
  then have "(2 * sin (A / 4))\<^sup>2 \<le> (sin A)\<^sup>2" using pos by (intro power_mono) simp_all
  moreover have "(2 * sin (A / 4))\<^sup>2 = 4 * (sin (A / 4))\<^sup>2" by (simp add: power_mult_distrib)
  moreover have "0 < (sin (A / 4))\<^sup>2" using pos by simp
  ultimately show False using up by linarith
qed

lemma gps_distance_Inr:
  assumes "gps_distance lat1 lon1 lat2 lon2 = Inr distance"
  defines "h \<equiv> (sin ((lat2 - lat1) / 2))\<^sup>2 + cos lat1 * cos lat2 * (sin ((lon2 - lon1) / 2))\<^sup>2"
  shows "0 \<le> h" and "sqrt h \<le> 1" and "distance = EARTH_DIAMETER * arcsin (sqrt h)"
  using assms(1) unfolding gps_distance_def py_sqrt_def py_asin_def h_def [symmetric]
  by (auto split: if_splits)

lemma haversine_le:
  "(sin (a / 2))\<^sup>2 + cos lat1 * cos lat2 * (sin (b / 2))\<^sup>2
     \<le> (sin (a / 2))\<^sup>2 + (sin (b / 2))\<^sup>2" for a b lat1 lat2 :: real
proof -
  have "\<bar>cos lat1 * cos lat2\<bar> \<le> 1 * 1"
    unfolding abs_mult by (intro mult_mono) simp_all
  then have "cos lat1 * cos lat2 \<le> 1" by simp
  then have "cos lat1 * cos lat2 * (sin (b / 2))\<^sup>2 \<le> 1 * (sin (b / 2))\<^sup>2"
    by (intro mult_right_mono) simp_all
  then show ?thesis by simp
qed

lemma compare_positions_far:
  assumes "gps_distance (radians lat1) (radians lon1) (radians lat2) (radians lon2) = Inr distance"
    and "\<not> distance < 5"
    and "\<bar>radians lon2 - radians lon1\<bar> \<le> 1" and "\<bar>radians lat2 - radians lat1\<bar> \<le> 1"
  shows "compare_positions lat1 lon1 lat2 lon2 =
     Inr (py_int distance,
          lat_label (arcsin (radians lat2 - radians lat1) * EARTH_DIAMETER / distance)
                    (sin (radians (45 / 2)))
          @ lon_label (arcsin (radians lon2 - radians lon1) * EARTH_DIAMETER / distance)
                    (sin (radians (45 / 2))))"
proof -
  have "\<not> radians lon2 - radians lon1 < - 1" "\<not> 1 < radians lon2 - radians lon1"
    "\<not> radians lat2 - radians lat1 < - 1" "\<not> 1 < radians lat2 - radians lat1"
    using assms(3,4) by linarith+
  with assms(1,2) show ?thesis
    by (simp add: compare_positions_def Let_def py_asin_def lat_label_def lon_label_def)
qed

lemma compare_positions_Inr:
  assumes "compare_positions lat1 lon1 lat2 lon2 = Inr (d, label)"
  shows "\<exists>distance.
    gps_distance (radians lat1) (radians lon1) (radians lat2) (radians lon2) = Inr distance
    \<and> d = py_int distance
    \<and> (distance < 5 \<longrightarrow> label = [])
    \<and> (\<not> distance < 5 \<longrightarrow>
         \<bar>radians lon2 - radians lon1\<bar> \<le> 1 \<and> \<bar>radians lat2 - radians lat1\<bar> \<le> 1
         \<and> label = lat_label (arcsin (radians lat2 - radians lat1) * EARTH_DIAMETER / distance)
                      (sin (radians (45 / 2)))
            @ lon_label (arcsin (radians lon2 - radians lon1) * EARTH_DIAMETER / distance)
                      (sin (radians (45 / 2))))"
proof -
  from assms obtain distance where
    g: "gps_distance (radians lat1) (radians lon1) (radians lat2) (radians lon2) = Inr distance"
    by (auto simp: compare_positions_def Let_def split: sum.splits)
  show ?thesis
  proof (cases "distance < 5")
    case True
    with assms g have "d = py_int distance" "label = []"
      by (simp_all add: compare_positions_def Let_def)
    with g True show ?thesis by blast
  next
    case False
    with assms g have ab: "\<bar>radians lon2 - radians lon1\<bar> \<le> 1" "\<bar>radians lat2 - radians lat1\<bar> \<le> 1"
      by (auto simp: compare_positions_def Let_def py_asin_def split: sum.splits if_splits)
    from compare_positions_far [OF g False ab] assms
    have "d = py_int distance"
      "label = lat_label (arcsin (radians lat2 - radians lat1) * EARTH_DIAMETER / distance)
                    (sin (radians (45 / 2)))
          @ lon_label (arcsin (radians lon2 - radians lon1) * EARTH_DIAMETER / distance)
                    (sin (radians (45 / 2)))"
      by simp_all
    with g False ab show ?thesis by blast
  qed
qed

lemma labels_nine:
  "lat_label x s @ lon_label y s \<in> set [[], ''N'', ''S'', ''E'', ''W'', ''NE'', ''NW'', ''SE'', ''SW'']"
  by (simp add: lat_label_def lon_label_def)

lemma labels_empty_iff:
  assumes "0 < s"
  shows "lat_label x s @ lon_label y s = [] \<longleftrightarrow> \<bar>x\<bar> \<le> s \<and> \<bar>y\<bar> \<le> s"
  using assms by (auto simp: lat_label_def lon_label_def)

lemma far_label_nonempty:
  assumes g: "gps_distance lat1 lon1 lat2 lon2 = Inr distance" and far: "\<not> distance < 5"
    and ab: "\<bar>lon2 - lon1\<bar> \<le> 1" "\<bar>lat2 - lat1\<bar> \<le> 1"
  shows "lat_label (arcsin (lat2 - lat1) * EARTH_DIAMETER / distance) (sin (radians (45 / 2)))
          @ lon_label (arcsin (lon2 - lon1) * EARTH_DIAMETER / distance) (sin (radians (45 / 2)))
         \<noteq> []"
proof
  let ?s = "sin (radians (45 / 2))"
  let ?h = "(sin ((lat2 - lat1) / 2))\<^sup>2 + cos lat1 * cos lat2 * (sin ((lon2 - lon1) / 2))\<^sup>2"
  let ?A = "arcsin (sqrt ?h)"
  assume "lat_label (arcsin (lat2 - lat1) * EARTH_DIAMETER / distance) ?s
          @ lon_label (arcsin (lon2 - lon1) * EARTH_DIAMETER / distance) ?s = []"
  then have small: "\<bar>arcsin (lat2 - lat1) * EARTH_DIAMETER / distance\<bar> \<le> ?s"
      "\<bar>arcsin (lon2 - lon1) * EARTH_DIAMETER / distance\<bar> \<le> ?s"
    using labels_empty_iff [OF sin_angle_bounds(1)] by blast+
  note d = gps_distance_Inr [OF g]
  have D: "0 < EARTH_DIAMETER" by (simp add: EARTH_DIAMETER_def)
  have "0 < distance" using far by simp
  then have Apos: "0 < ?A" unfolding d(3) using D by (simp add: zero_less_mult_iff)
  have ratio: "x * EARTH_DIAMETER / distance = x / ?A" for x
    unfolding d(3) using D Apos by (simp add: field_simps)
  have "\<bar>arcsin (lat2 - lat1)\<bar> \<le> ?s * ?A" "\<bar>arcsin (lon2 - lon1)\<bar> \<le> ?s * ?A"
    using small Apos unfolding ratio by (simp_all add: abs_divide field_simps)
  from offsets_not_both_small [OF Apos refl d(1) d(2) haversine_le ab(2) this(1) ab(1) this(2)
      sin_angle_bounds]
  show False .
qed

lemma radians_diff: "radians x - radians y = radians (x - y)"
  by (simp add: radians_def field_simps)

lemma gps_distance_total:
  assumes "\<bar>lat2 - lat1\<bar> \<le> 1" "\<bar>lon2 - lon1\<bar> \<le> 1" "0 \<le> cos lat1 * cos lat2"
  shows "\<exists>distance. gps_distance lat1 lon1 lat2 lon2 = Inr distance"
proof -
  let ?h = "(sin ((lat2 - lat1) / 2))\<^sup>2 + cos lat1 * cos lat2 * (sin ((lon2 - lon1) / 2))\<^sup>2"
  have h0: "0 \<le> ?h" using assms(3) by simp
  have sq: "(sin (x / 2))\<^sup>2 \<le> 1 / 4" if "\<bar>x\<bar> \<le> 1" for x :: real
  proof -
    have "\<bar>sin (x / 2)\<bar> \<le> \<bar>x / 2\<bar>" by (rule abs_sin_x_le_abs_x)
    also have "\<dots> \<le> 1 / 2" using that by simp
    finally have "\<bar>sin (x / 2)\<bar>\<^sup>2 \<le> (1 / 2)\<^sup>2" by (intro power_mono) simp_all
    then show ?thesis by (simp add: power_divide)
  qed
  have "?h \<le> (sin ((lat2 - lat1) / 2))\<^sup>2 + (sin ((lon2 - lon1) / 2))\<^sup>2"
    by (rule haversine_le)
  also have "\<dots> \<le> 1 / 4 + 1 / 4" using sq [OF assms(1)] sq [OF assms(2)] by (rule add_mono)
  finally have "?h \<le> 1" by simp
  then have "sqrt ?h \<le> 1" by (simp add: real_sqrt_le_1_iff)
  moreover have "0 \<le> sqrt ?h" using h0 by simp
  ultimately have "\<not> sqrt ?h < - 1" "\<not> 1 < sqrt ?h" by linarith+
  then show ?thesis
    using h0 by (simp add: gps_distance_def py_sqrt_def py_asin_def)
qed

lemma compare_positions_total:
  assumes "\<bar>radians lat2 - radians lat1\<bar> \<le> 1" "\<bar>radians lon2 - radians lon1\<bar> \<le> 1"
    and "0 \<le> cos (radians lat1) * cos (radians lat2)"
  shows "\<exists>d label. compare_positions lat1 lon1 lat2 lon2 = Inr (d, label)"
proof -
  from gps_distance_total [OF assms] obtain distance where
    g: "gps_distance (radians lat1) (radians lon1) (radians lat2) (radians lon2) = Inr distance"
    by blast
  show ?thesis
  proof (cases "distance < 5")
    case True
    with g show ?thesis by (simp add: compare_positions_def Let_def)
  next
    case False
    from compare_positions_far [OF g False assms(2,1)] show ?thesis by blast
  qed
qed

lemma compare_positions_north:
  assumes "lon2 = lon1" "lat1 < lat2" "radians (lat2 - lat1) \<le> 1"
    and "5 \<le> EARTH_DIAMETER * radians (lat2 - lat1) / 2"
  shows "compare_positions lat1 lon1 lat2 lon2 =
           Inr (py_int (EARTH_DIAMETER * radians (lat2 - lat1) / 2), ''N'')"
proof -
  let ?a = "radians (lat2 - lat1)"
  let ?s = "sin (radians (45 / 2))"
  have D: "0 < EARTH_DIAMETER" by (simp add: EARTH_DIAMETER_def)
  have a0: "0 < ?a" using assms(2) by (simp add: radians_def)
  have a2: "- (pi / 2) \<le> ?a / 2" "?a / 2 \<le> pi / 2"
    using a0 assms(3) pi_ge_two by linarith+
  have s0: "0 \<le> sin (?a / 2)" using a0 a2 by (intro sin_ge_zero) linarith+
  have "\<not> sin (?a / 2) < - 1" "\<not> 1 < sin (?a / 2)" by (simp_all add: not_less)
  moreover have "sqrt ((sin (?a / 2))\<^sup>2) = sin (?a / 2)" using s0 by simp
  ultimately have g: "gps_distance (radians lat1) (radians lon1) (radians lat2) (radians lon2)
        = Inr (EARTH_DIAMETER * ?a / 2)"
    using assms(1) a2 s0
    by (simp add: gps_distance_def py_sqrt_def py_asin_def radians_diff arcsin_sin)
  have far: "\<not> EARTH_DIAMETER * ?a / 2 < 5" using assms(4) by simp
  have ab: "\<bar>radians lon2 - radians lon1\<bar> \<le> 1" "\<bar>radians lat2 - radians lat1\<bar> \<le> 1"
    using assms(1,3) a0 by (simp_all add: radians_diff)
  have "?a \<le> arcsin ?a"
    using abs_le_abs_arcsin [of ?a] a0 assms(3) arcsin_nonneg [of ?a] by simp
  then have "2 * ?a \<le> 2 * arcsin ?a" by simp
  then have "2 \<le> 2 * arcsin ?a / ?a" using a0 by (simp add: field_simps)
  moreover have "arcsin ?a * EARTH_DIAMETER / (EARTH_DIAMETER * ?a / 2) = 2 * arcsin ?a / ?a"
    using D a0 by (simp add: field_simps)
  ultimately have big: "2 \<le> arcsin ?a * EARTH_DIAMETER / (EARTH_DIAMETER * ?a / 2)" by simp
  have lat: "lat_label (arcsin ?a * EARTH_DIAMETER / (EARTH_DIAMETER * ?a / 2)) ?s = ''N''"
    using big sin_angle_bounds by (simp add: lat_label_def)
  have lon: "lon_label (arcsin (radians lon2 - radians lon1) * EARTH_DIAMETER
        / (EARTH_DIAMETER * ?a / 2)) ?s = []"
    using assms(1) by (simp add: lon_label_def)
  from compare_positions_far [OF g far ab] lat lon show ?thesis
    by (simp add: radians_diff)
qed

lemma gps_distance_north:
  assumes "0 \<le> lat2 - lat1" "lat2 - lat1 \<le> 1"
  shows "gps_distance lat1 lon lat2 lon = Inr (EARTH_DIAMETER * (lat2 - lat1) / 2)"
proof -
  let ?a = "lat2 - lat1"
  have a2: "- (pi / 2) \<le> ?a / 2" "?a / 2 \<le> pi / 2"
    using assms pi_ge_two by auto
  have s0: "0 \<le> sin (?a / 2)" using assms a2 by (intro sin_ge_zero) auto
  have "\<not> sin (?a / 2) < - 1" "\<not> 1 < sin (?a / 2)" by (simp_all add: not_less)
  moreover have "sqrt ((sin (?a / 2))\<^sup>2) = sin (?a / 2)" using s0 by simp
  ultimately show ?thesis
    using a2 by (simp add: gps_distance_def py_sqrt_def py_asin_def arcsin_sin)
qed

text \<open>
  Claim C9. Whenever \<open>compare_positions\<close> returns, its label is the empty one exactly
  when the distance is below 5 m; from 5 m on, the label is the latitude label followed
  by the longitude label, each got by comparing the offset of its axis, scaled by
  \<open>EARTH_DIAMETER\<close> over the distance, with sin(22.5 degrees); the label is one of the
  eight octants or empty. A point exactly north, at 5 m at least (so at 100 m), gets
  \<open>N\<close>. The function returns (no \<open>ValueError\<close>) whenever both offsets are of one
  radian at most and the cosines of the latitudes have a product that is not negative.
\<close>

theorem compass_direction:
  "(compare_positions lat1 lon1 lat2 lon2 = Inr (d, label) \<longrightarrow>
      label \<in> set [[], ''N'', ''S'', ''E'', ''W'', ''NE'', ''NW'', ''SE'', ''SW'']
      \<and> (\<exists>distance.
            gps_distance (radians lat1) (radians lon1) (radians lat2) (radians lon2) = Inr distance
            \<and> d = py_int distance \<and> (label = [] \<longleftrightarrow> distance < 5)
            \<and> (\<not> distance < 5 \<longrightarrow>
                 label =
                   lat_label (arcsin (radians lat2 - radians lat1) * EARTH_DIAMETER / distance)
                     (sin (radians (45 / 2)))
                   @ lon_label (arcsin (radians lon2 - radians lon1) * EARTH_DIAMETER / distance)
                     (sin (radians (45 / 2))))))
   \<and> (lon2 = lon1 \<and> lat1 < lat2 \<and> radians (lat2 - lat1) \<le> 1
        \<and> 5 \<le> EARTH_DIAMETER * radians (lat2 - lat1) / 2 \<longrightarrow>
      compare_positions lat1 lon1 lat2 lon2 =
        Inr (py_int (EARTH_DIAMETER * radians (lat2 - lat1) / 2), ''N''))
   \<and> (\<bar>radians lat2 - radians lat1\<bar> \<le> 1 \<and> \<bar>radians lon2 - radians lon1\<bar> \<le> 1
        \<and> 0 \<le> cos (radians lat1) * cos (radians lat2) \<longrightarrow>
      (\<exists>d label. compare_positions lat1 lon1 lat2 lon2 = Inr (d, label)))"
proof (intro conjI impI)
  assume c: "compare_positions lat1 lon1 lat2 lon2 = Inr (d, label)"
  from compare_positions_Inr [OF c] obtain distance where
    g: "gps_distance (radians lat1) (radians lon1) (radians lat2) (radians lon2) = Inr distance"
    and d: "d = py_int distance"
    and near: "distance < 5 \<Longrightarrow> label = []"
    and far: "\<not> distance < 5 \<Longrightarrow>
       \<bar>radians lon2 - radians lon1\<bar> \<le> 1 \<and> \<bar>radians lat2 - radians lat1\<bar> \<le> 1
       \<and> label = lat_label (arcsin (radians lat2 - radians lat1) * EARTH_DIAMETER / distance)
                    (sin (radians (45 / 2)))
          @ lon_label (arcsin (radians lon2 - radians lon1) * EARTH_DIAMETER / distance)
                    (sin (radians (45 / 2)))"
    by blast
  show "label \<in> set [[], ''N'', ''S'', ''E'', ''W'', ''NE'', ''NW'', ''SE'', ''SW'']"
  proof (cases "distance < 5")
    case True
    with near show ?thesis by simp
  next
    case False
    with far labels_nine show ?thesis by metis
  qed
  have "label = [] \<longleftrightarrow> distance < 5"
  proof (cases "distance < 5")
    case True
    with near show ?thesis by simp
  next
    case False
    with far far_label_nonempty [OF g False] show ?thesis by metis
  qed
  with g d far show "\<exists>distance.
            gps_distance (radians lat1) (radians lon1) (radians lat2) (radians lon2) = Inr distance
            \<and> d = py_int distance \<and> (label = [] \<longleftrightarrow> distance < 5)
            \<and> (\<not> distance < 5 \<longrightarrow>
                 label =
                   lat_label (arcsin (radians lat2 - radians lat1) * EARTH_DIAMETER / distance)
                     (sin (radians (45 / 2)))
                   @ lon_label (arcsin (radians lon2 - radians lon1) * EARTH_DIAMETER / distance)
                     (sin (radians (45 / 2))))"
    by blast
next
  assume "lon2 = lon1 \<and> lat1 < lat2 \<and> radians (lat2 - lat1) \<le> 1
        \<and> 5 \<le> EARTH_DIAMETER * radians (lat2 - lat1) / 2"
  then show "compare_positions lat1 lon1 lat2 lon2 =
        Inr (py_int (EARTH_DIAMETER * radians (lat2 - lat1) / 2), ''N'')"
    using compare_positions_north by blast
next
  assume "\<bar>radians lat2 - radians lat1\<bar> \<le> 1 \<and> \<bar>radians lon2 - radians lon1\<bar> \<le> 1
        \<and> 0 \<le> cos (radians lat1) * cos (radians lat2)"
  then show "\<exists>d label. compare_positions lat1 lon1 lat2 lon2 = Inr (d, label)"
    using compare_positions_total by blast
qed

theorem compass_direction_witness:
  "compare_positions 0 0 (18 / (6371 * pi)) 0 = Inr (100, ''N'')
   \<and> gps_distance (radians 0) (radians 0) (radians (18 / (6371 * pi))) (radians 0) = Inr 100
   \<and> compare_positions 0 0 (27 / (318550 * pi)) 0 = Inr (3, [])
   \<and> gps_distance (radians 0) (radians 0) (radians (27 / (318550 * pi))) (radians 0) = Inr 3
   \<and> \<bar>radians (18 / (6371 * pi)) - radians 0\<bar> \<le> 1
   \<and> 0 \<le> cos (radians 0) * cos (radians (18 / (6371 * pi)))
   \<and> (\<exists>d label. compare_positions 0 0 (18 / (6371 * pi)) 0 = Inr (d, label))"
proof -
  let ?n = "18 / (6371 * pi) :: real"
  let ?h = "27 / (318550 * pi) :: real"
  have rn: "radians ?n = 1 / 63710" and rh: "radians ?h = 3 / 6371000"
    by (simp_all add: radians_def)
  have r0: "radians 0 = 0" by (simp add: radians_def)
  have gn: "gps_distance (radians 0) (radians 0) (radians ?n) (radians 0) = Inr 100"
    using gps_distance_north [of "1 / 63710" 0 0] by (simp add: rn r0 EARTH_DIAMETER_def)
  have gh: "gps_distance (radians 0) (radians 0) (radians ?h) (radians 0) = Inr 3"
    using gps_distance_north [of "3 / 6371000" 0 0] by (simp add: rh r0 EARTH_DIAMETER_def)
  have north: "(0::real) = 0 \<and> 0 < ?n \<and> radians (?n - 0) \<le> 1
        \<and> 5 \<le> EARTH_DIAMETER * radians (?n - 0) / 2"
    by (simp add: rn EARTH_DIAMETER_def)
  from compass_direction [of 0 0 ?n 0 100 "''N''"] north
  have "compare_positions 0 0 ?n 0 = Inr (py_int (EARTH_DIAMETER * radians (?n - 0) / 2), ''N'')"
    by blast
  then have cn: "compare_positions 0 0 ?n 0 = Inr (100, ''N'')"
    by (simp add: rn EARTH_DIAMETER_def py_int_def)
  have ch: "compare_positions 0 0 ?h 0 = Inr (3, [])"
    using gh by (simp add: compare_positions_def Let_def py_int_def)
  have small: "\<bar>radians ?n - radians 0\<bar> \<le> 1" "\<bar>radians 0 - radians 0\<bar> \<le> 1"
    by (simp_all add: rn r0)
  have "0 \<le> cos (1 / 63710 :: real)"
    using pi_ge_two by (intro cos_ge_zero) auto
  then have c: "0 \<le> cos (radians 0) * cos (radians ?n)" by (simp add: rn r0)
  from compass_direction [of 0 0 ?n 0 100 "''N''"] small c
  have "\<exists>d label. compare_positions 0 0 ?n 0 = Inr (d, label)" by blast
  with cn gn ch gh small(1) c show ?thesis by blast
qed

end
